theory Spec2Isabelle
  imports Complex_Main "HOL-Library.Sublist" "HOL-Library.AList"
begin

section \<open>JavaScript values\<close>

text \<open>
  The service mixin of \<^verbatim>\<open>src/packages/moleculer-db/src/index.js\<close> works on dynamically
  typed request parameters and documents. They are modelled by the JSON fragment of
  JavaScript values. Numbers are the integer-valued numbers together with \<open>NaN\<close> and the two
  infinities; arithmetic on them is exact (no rounding of large values, no negative zero).
  Objects are association lists in insertion order; \<open>map_of\<close> reads a property and
  \<open>AList.update\<close> writes one (in place when the key exists, at the end otherwise).
\<close>

datatype jsnum = NaN | PInf | NInf | Fin int

datatype jsval =
    JUndefined
  | JNull
  | JBool bool
  | JNum jsnum
  | JStr string
  | JArr "jsval list"
  | JObj "(string \<times> jsval) list"

type_synonym obj = "(string \<times> jsval) list"

text \<open>Failures: the two error classes of \<^verbatim>\<open>errors.js\<close>, a \<open>TypeError\<close> of the language, and a
  failure reported by a collaborator (storage adapter, remote action, custom handler, hook).\<close>

datatype error =
    TypeError
  | EntityNotFoundError jsval
  | EntityLogicallyNotFoundError jsval
  | Rejected string




definition bindE :: "error + 'a \<Rightarrow> ('a \<Rightarrow> error + 'b) \<Rightarrow> error + 'b" where
  "bindE m f = (case m of Inl e \<Rightarrow> Inl e | Inr x \<Rightarrow> f x)"

subsection \<open>Property access\<close>

definition obj_get :: "obj \<Rightarrow> string \<Rightarrow> jsval" where
  "obj_get p k = (case map_of p k of None \<Rightarrow> JUndefined | Some v \<Rightarrow> v)"

definition obj_set :: "obj \<Rightarrow> string \<Rightarrow> jsval \<Rightarrow> obj" where
  "obj_set p k v = AList.update k v p"

definition object_keys :: "obj \<Rightarrow> string list" where
  "object_keys p = remdups (map fst p)"

subsection \<open>Arithmetic on numbers\<close>

fun num_neg :: "jsnum \<Rightarrow> jsnum" where
  "num_neg NaN = NaN"
| "num_neg PInf = NInf"
| "num_neg NInf = PInf"
| "num_neg (Fin a) = Fin (- a)"

fun num_add :: "jsnum \<Rightarrow> jsnum \<Rightarrow> jsnum" where
  "num_add (Fin a) (Fin b) = Fin (a + b)"
| "num_add NaN y = NaN"
| "num_add x NaN = NaN"
| "num_add PInf NInf = NaN"
| "num_add NInf PInf = NaN"
| "num_add PInf y = PInf"
| "num_add x PInf = PInf"
| "num_add NInf y = NInf"
| "num_add x NInf = NInf"

definition num_sub :: "jsnum \<Rightarrow> jsnum \<Rightarrow> jsnum" where
  "num_sub x y = num_add x (num_neg y)"

fun num_sgn :: "jsnum \<Rightarrow> int" where
  "num_sgn NaN = 0"
| "num_sgn PInf = 1"
| "num_sgn NInf = - 1"
| "num_sgn (Fin a) = sgn a"

fun num_mul :: "jsnum \<Rightarrow> jsnum \<Rightarrow> jsnum" where
  "num_mul (Fin a) (Fin b) = Fin (a * b)"
| "num_mul NaN y = NaN"
| "num_mul x NaN = NaN"
| "num_mul x y =
     (if num_sgn x * num_sgn y = 0 then NaN
      else if num_sgn x * num_sgn y > 0 then PInf else NInf)"

text \<open>\<open>x > y\<close> on numbers: false as soon as one side is \<open>NaN\<close>.\<close>

fun num_gt :: "jsnum \<Rightarrow> jsnum \<Rightarrow> bool" where
  "num_gt (Fin a) (Fin b) = (a > b)"
| "num_gt NaN y = False"
| "num_gt x NaN = False"
| "num_gt PInf y = (y \<noteq> PInf)"
| "num_gt x PInf = False"
| "num_gt x NInf = (x \<noteq> NInf)"
| "num_gt NInf y = False"

text \<open>\<open>Math.floor(x / y)\<close>, the only place where the source divides.\<close>

fun floor_div :: "jsnum \<Rightarrow> jsnum \<Rightarrow> jsnum" where
  "floor_div (Fin a) (Fin b) =
     (if b \<noteq> 0 then Fin (a div b)
      else if a > 0 then PInf else if a < 0 then NInf else NaN)"
| "floor_div NaN y = NaN"
| "floor_div x NaN = NaN"
| "floor_div (Fin a) y = Fin 0"
| "floor_div x (Fin b) =
     (if num_sgn x * (if b < 0 then - 1 else 1) > 0 then PInf else NInf)"
| "floor_div x y = NaN"

subsection \<open>Conversions\<close>

definition digit_chars :: string where
  "digit_chars = ''0123456789''"

function string_of_nat :: "nat \<Rightarrow> string" where
  "string_of_nat n =
     (if n < 10 then [digit_chars ! n]
      else string_of_nat (n div 10) @ [digit_chars ! (n mod 10)])"
  by pat_completeness auto
termination
  by (relation "measure id") auto

fun num_to_string :: "jsnum \<Rightarrow> string" where
  "num_to_string NaN = ''NaN''"
| "num_to_string PInf = ''Infinity''"
| "num_to_string NInf = ''-Infinity''"
| "num_to_string (Fin a) =
     (if a < 0 then CHR ''-'' # string_of_nat (nat (- a)) else string_of_nat (nat a))"

fun join :: "string \<Rightarrow> string list \<Rightarrow> string" where
  "join sep [] = []"
| "join sep [s] = s"
| "join sep (s # t # ss) = s @ sep @ join sep (t # ss)"

text \<open>\<open>String(v)\<close>. Inside \<open>Array.prototype.join\<close> the elements \<open>null\<close> and \<open>undefined\<close> print
  as the empty string.\<close>

fun to_string :: "jsval \<Rightarrow> string" where
  "to_string JUndefined = ''undefined''"
| "to_string JNull = ''null''"
| "to_string (JBool b) = (if b then ''true'' else ''false'')"
| "to_string (JNum n) = num_to_string n"
| "to_string (JStr s) = s"
| "to_string (JArr xs) =
     join '','' (map (\<lambda>x. if x = JNull \<or> x = JUndefined then [] else to_string x) xs)"
| "to_string (JObj ps) = ''[object Object]''"

text \<open>\<open>Number(v)\<close>. The conversion of a string to a number is the language's own
  (\<open>StringToNumber\<close>) and is a parameter \<open>N\<close> of the model, so nothing proved below depends
  on how numerals are parsed.\<close>

fun to_number :: "(string \<Rightarrow> jsnum) \<Rightarrow> jsval \<Rightarrow> jsnum" where
  "to_number N JUndefined = NaN"
| "to_number N JNull = Fin 0"
| "to_number N (JBool b) = Fin (if b then 1 else 0)"
| "to_number N (JNum n) = n"
| "to_number N (JStr s) = N s"
| "to_number N (JArr xs) = N (to_string (JArr xs))"
| "to_number N (JObj ps) = N (to_string (JObj ps))"

fun js_truthy :: "jsval \<Rightarrow> bool" where
  "js_truthy JUndefined = False"
| "js_truthy JNull = False"
| "js_truthy (JBool b) = b"
| "js_truthy (JNum n) = (n \<noteq> NaN \<and> n \<noteq> Fin 0)"
| "js_truthy (JStr s) = (s \<noteq> [])"
| "js_truthy (JArr xs) = True"
| "js_truthy (JObj ps) = True"

fun js_typeof :: "jsval \<Rightarrow> string" where
  "js_typeof JUndefined = ''undefined''"
| "js_typeof JNull = ''object''"
| "js_typeof (JBool b) = ''boolean''"
| "js_typeof (JNum n) = ''number''"
| "js_typeof (JStr s) = ''string''"
| "js_typeof (JArr xs) = ''object''"
| "js_typeof (JObj ps) = ''object''"


text \<open>\<open>v > n\<close>, \<open>a - b\<close> and \<open>a * b\<close> where the right operand of the comparison is a number:
  both sides are converted to numbers.\<close>

definition js_gt :: "(string \<Rightarrow> jsnum) \<Rightarrow> jsval \<Rightarrow> jsnum \<Rightarrow> bool" where
  "js_gt N v n = num_gt (to_number N v) n"

definition js_minus :: "(string \<Rightarrow> jsnum) \<Rightarrow> jsval \<Rightarrow> jsval \<Rightarrow> jsval" where
  "js_minus N a b = JNum (num_sub (to_number N a) (to_number N b))"

definition js_times :: "(string \<Rightarrow> jsnum) \<Rightarrow> jsval \<Rightarrow> jsval \<Rightarrow> jsval" where
  "js_times N a b = JNum (num_mul (to_number N a) (to_number N b))"

text \<open>\<open>a + b\<close>: concatenation as soon as one operand, made primitive, is a string.\<close>

fun to_primitive :: "jsval \<Rightarrow> jsval" where
  "to_primitive (JArr xs) = JStr (to_string (JArr xs))"
| "to_primitive (JObj ps) = JStr (to_string (JObj ps))"
| "to_primitive v = v"

definition js_plus :: "(string \<Rightarrow> jsnum) \<Rightarrow> jsval \<Rightarrow> jsval \<Rightarrow> jsval" where
  "js_plus N a b =
     (let pa = to_primitive a; pb = to_primitive b in
      if js_typeof pa = ''string'' \<or> js_typeof pb = ''string''
      then JStr (to_string pa @ to_string pb)
      else JNum (num_add (to_number N pa) (to_number N pb)))"

subsection \<open>Strings\<close>

text \<open>\<open>s.split(c)\<close> for a one-character separator: the pieces between the separators, empty
  pieces included.\<close>

fun split_on :: "char \<Rightarrow> string \<Rightarrow> string list" where
  "split_on c [] = [[]]"
| "split_on c (x # xs) =
     (if x = c then [] # split_on c xs
      else (case split_on c xs of [] \<Rightarrow> [[x]] | w # ws \<Rightarrow> (x # w) # ws))"

text \<open>\<open>hay.indexOf(needle) !== -1\<close>.\<close>

fun str_includes :: "string \<Rightarrow> string \<Rightarrow> bool" where
  "str_includes [] needle = (needle = [])"
| "str_includes (c # cs) needle = (prefix needle (c # cs) \<or> str_includes cs needle)"

text \<open>The method chain \<open>v.replace(/,/g, " ").split(" ")\<close>. Only a string has the method
  \<open>replace\<close>; on any other value of the fragment the call throws.\<close>

definition replace_split :: "jsval \<Rightarrow> error + jsval" where
  "replace_split v =
     (case v of
        JStr s \<Rightarrow>
          Inr (JArr (map JStr (split_on CHR '' '' (map (\<lambda>c. if c = CHR '','' then CHR '' '' else c) s))))
      | _ \<Rightarrow> Inl TypeError)"

section \<open>Settings\<close>

text \<open>A population rule is a function, the name of an action, or an object
  \<open>{ action, params, populate, handler }\<close>. A custom handler receives the collected ids and
  the documents and may rewrite the documents or fail.\<close>

type_synonym handler = "jsval list \<Rightarrow> obj list \<Rightarrow> error + obj list"

datatype rule =
    RuleFunction handler
  | RuleString string
  | RuleObject string "obj option" jsval "handler option"

record settings =
  idField :: string
  fields' :: "string list option"
  populates :: "(string \<times> rule) list option"
  pageSize :: jsnum
  maxPageSize :: jsnum
  maxLimit :: jsnum
  softDelete :: bool

section \<open>Parameter sanitizer\<close>

definition stringToNumber :: "(string \<Rightarrow> jsnum) \<Rightarrow> string \<Rightarrow> obj \<Rightarrow> obj" where
  "stringToNumber N k p =
     (if js_typeof (obj_get p k) = ''string''
      then obj_set p k (JNum (to_number N (obj_get p k))) else p)"

definition stringToList :: "string \<Rightarrow> obj \<Rightarrow> error + obj" where
  "stringToList k p =
     (if js_typeof (obj_get p k) = ''string''
      then bindE (replace_split (obj_get p k)) (\<lambda>v. Inr (obj_set p k v))
      else Inr p)"

text \<open>The branch of \<open>sanitizeParams\<close> taken when the action name ends with \<open>.list\<close>.\<close>

definition paginate :: "(string \<Rightarrow> jsnum) \<Rightarrow> settings \<Rightarrow> obj \<Rightarrow> obj" where
  "paginate N st p0 =
     (let p1 = (if \<not> js_truthy (obj_get p0 ''pageSize'')
                then obj_set p0 ''pageSize'' (JNum (pageSize st)) else p0);
          p2 = (if \<not> js_truthy (obj_get p1 ''page'')
                then obj_set p1 ''page'' (JNum (Fin 1)) else p1);
          p3 = (if num_gt (maxPageSize st) (Fin 0)
                   \<and> js_gt N (obj_get p2 ''pageSize'') (maxPageSize st)
                then obj_set p2 ''pageSize'' (JNum (maxPageSize st)) else p2);
          p4 = obj_set p3 ''limit'' (obj_get p3 ''pageSize'')
      in obj_set p4 ''offset''
           (js_times N (js_minus N (obj_get p4 ''page'') (JNum (Fin 1))) (obj_get p4 ''pageSize'')))"

definition limitTheLimit :: "(string \<Rightarrow> jsnum) \<Rightarrow> settings \<Rightarrow> obj \<Rightarrow> obj" where
  "limitTheLimit N st p =
     (if num_gt (maxLimit st) (Fin 0) \<and> js_gt N (obj_get p ''limit'') (maxLimit st)
      then obj_set p ''limit'' (JNum (maxLimit st)) else p)"

definition sanitizeParams :: "(string \<Rightarrow> jsnum) \<Rightarrow> settings \<Rightarrow> string \<Rightarrow> obj \<Rightarrow> error + obj" where
  "sanitizeParams N st actionName params =
     (let p = stringToNumber N ''pageSize''
                (stringToNumber N ''page''
                  (stringToNumber N ''offset''
                    (stringToNumber N ''limit'' params)))
      in bindE (stringToList ''sort'' p) (\<lambda>p.
         bindE (stringToList ''fields'' p) (\<lambda>p.
         bindE (stringToList ''populate'' p) (\<lambda>p.
         bindE (stringToList ''searchFields'' p) (\<lambda>p.
           Inr (limitTheLimit N st
                  (if suffix ''.list'' actionName then paginate N st p else p)))))))"

text \<open>The sanitizer as the specification words it: a string is read as a number, and a
  value is clamped to a maximum that is positive and exceeded.\<close>

definition spec_numeric :: "(string \<Rightarrow> jsnum) \<Rightarrow> jsval \<Rightarrow> jsval" where
  "spec_numeric N v = (if js_typeof v = ''string'' then JNum (to_number N v) else v)"

definition spec_clamp :: "(string \<Rightarrow> jsnum) \<Rightarrow> jsnum \<Rightarrow> jsval \<Rightarrow> jsval" where
  "spec_clamp N m v = (if num_gt m (Fin 0) \<and> js_gt N v m then JNum m else v)"

section \<open>Decimal literals and the default settings\<close>

text \<open>A reader of decimal integer literals: \<open>""\<close> reads as \<open>0\<close>, an optional minus sign and
  digits as the integer, any other string as \<open>NaN\<close>. It is the string-to-number reader of
  the examples, which only convert strings of that form; its digit reader also reads the
  array indices of property paths.\<close>

definition digit_of :: "char \<Rightarrow> int option" where
  "digit_of c = map_of (zip digit_chars [0, 1, 2, 3, 4, 5, 6, 7, 8, 9]) c"

fun read_digits :: "int \<Rightarrow> string \<Rightarrow> jsnum" where
  "read_digits acc [] = Fin acc"
| "read_digits acc (c # cs) =
     (case digit_of c of None \<Rightarrow> NaN | Some d \<Rightarrow> read_digits (10 * acc + d) cs)"

definition decimalNumber :: "string \<Rightarrow> jsnum" where
  "decimalNumber s =
     (if s = [] then Fin 0
      else if hd s = CHR ''-'' \<and> tl s \<noteq> [] then num_neg (read_digits 0 (tl s))
      else read_digits 0 s)"

text \<open>The default settings of the mixin.\<close>

definition defaultSettings :: settings where
  "defaultSettings =
     \<lparr> idField = ''_id'', fields' = None, populates = None, pageSize = Fin 10,
       maxPageSize = Fin 100, maxLimit = Fin (- 1), softDelete = False \<rparr>"

section \<open>Lodash helpers\<close>

text \<open>\<open>_.compact\<close> drops the falsy elements, \<open>_.flattenDeep\<close> flattens nested arrays, \<open>_.uniq\<close>
  keeps the first occurrence of every element.\<close>

definition compact :: "jsval list \<Rightarrow> jsval list" where
  "compact xs = filter js_truthy xs"

function flattenDeep :: "jsval list \<Rightarrow> jsval list" where
  "flattenDeep [] = []"
| "flattenDeep (x # xs) =
     (case x of JArr ys \<Rightarrow> flattenDeep ys @ flattenDeep xs | _ \<Rightarrow> x # flattenDeep xs)"
  by pat_completeness auto
termination
  by (relation "measure (size_list size)") auto

fun uniq_into :: "'a list \<Rightarrow> 'a list \<Rightarrow> 'a list" where
  "uniq_into res [] = res"
| "uniq_into res (x # xs) =
     (if x \<in> set res then uniq_into res xs else uniq_into (res @ [x]) xs)"

definition uniq :: "'a list \<Rightarrow> 'a list" where
  "uniq xs = uniq_into [] xs"

text \<open>\<open>Object.assign(target, source)\<close>.\<close>

definition object_assign :: "obj \<Rightarrow> obj \<Rightarrow> obj" where
  "object_assign target source = foldl (\<lambda>t (k, v). obj_set t k v) target source"

text \<open>Property keys that are array indices (\<open>0\<close>, \<open>1\<close>, \<open>10\<close>, ... without leading zeros).\<close>

definition index_of_key :: "string \<Rightarrow> nat option" where
  "index_of_key k =
     (if k \<noteq> [] \<and> (\<forall>c \<in> set k. c \<in> set digit_chars) \<and> (k = ''0'' \<or> hd k \<noteq> CHR ''0'')
      then (case read_digits 0 k of Fin i \<Rightarrow> Some (nat i) | _ \<Rightarrow> None)
      else None)"

definition isIndex :: "string \<Rightarrow> bool" where
  "isIndex k = (index_of_key k \<noteq> None)"

text \<open>\<open>v[k]\<close> for a value other than \<open>null\<close> and \<open>undefined\<close>: own properties of objects,
  elements and \<open>length\<close> of arrays and strings. Inherited methods are not values of the
  fragment and read as \<open>undefined\<close>.\<close>

fun js_prop :: "jsval \<Rightarrow> string \<Rightarrow> jsval" where
  "js_prop (JObj ps) k = obj_get ps k"
| "js_prop (JArr xs) k =
     (if k = ''length'' then JNum (Fin (int (length xs)))
      else (case index_of_key k of
              Some i \<Rightarrow> if i < length xs then xs ! i else JUndefined
            | None \<Rightarrow> JUndefined))"
| "js_prop (JStr s) k =
     (if k = ''length'' then JNum (Fin (int (length s)))
      else (case index_of_key k of
              Some i \<Rightarrow> if i < length s then JStr [s ! i] else JUndefined
            | None \<Rightarrow> JUndefined))"
| "js_prop v k = JUndefined"

fun isObject :: "jsval \<Rightarrow> bool" where
  "isObject (JObj ps) = True"
| "isObject (JArr xs) = True"
| "isObject v = False"

text \<open>Paths of \<open>_.get\<close> and \<open>_.set\<close>. A field name that is a key of the object is that key;
  otherwise it is split at the dots. The bracket syntax of lodash paths
  (\<open>a[0].b\<close>) is outside the model: field names are dotted names.\<close>

definition castPath :: "string \<Rightarrow> obj \<Rightarrow> string list" where
  "castPath n object = (if n \<in> fst ` set object then [n] else split_on CHR ''.'' n)"

fun baseGet :: "jsval \<Rightarrow> string list \<Rightarrow> jsval" where
  "baseGet v [] = v"
| "baseGet v (k # ks) =
     (if v = JNull \<or> v = JUndefined then JUndefined else baseGet (js_prop v k) ks)"

definition lodash_get :: "obj \<Rightarrow> string \<Rightarrow> jsval" where
  "lodash_get object n = baseGet (JObj object) (castPath n object)"

text \<open>Writing an element of an array extends the array as far as needed; the holes read as
  \<open>undefined\<close>. A property of an array that is not an index is not a value of the fragment
  and is not written.\<close>

definition array_set :: "jsval list \<Rightarrow> nat \<Rightarrow> jsval \<Rightarrow> jsval list" where
  "array_set xs i x =
     (if i < length xs then xs[i := x] else xs @ replicate (i - length xs) JUndefined @ [x])"

fun assignValue :: "jsval \<Rightarrow> string \<Rightarrow> jsval \<Rightarrow> jsval" where
  "assignValue (JObj ps) k x = JObj (obj_set ps k x)"
| "assignValue (JArr xs) k x =
     (case index_of_key k of Some i \<Rightarrow> JArr (array_set xs i x) | None \<Rightarrow> JArr xs)"
| "assignValue v k x = v"

definition unsafe_keys :: "string list" where
  "unsafe_keys = [''__proto__'', ''constructor'', ''prototype'']"

text \<open>The loop of \<open>baseSet\<close>: on the way down a missing or primitive level is replaced by a
  new array (when the next key is an index) or a new object.\<close>

fun baseSet :: "jsval \<Rightarrow> string list \<Rightarrow> jsval \<Rightarrow> jsval" where
  "baseSet nested [] v = nested"
| "baseSet nested (k # ks) v =
     (if k \<in> set unsafe_keys then nested
      else if ks = [] then assignValue nested k v
      else assignValue nested k
             (baseSet
                (if isObject (js_prop nested k) then js_prop nested k
                 else if isIndex (hd ks) then JArr [] else JObj [])
                ks v))"

definition lodash_set :: "obj \<Rightarrow> string \<Rightarrow> jsval \<Rightarrow> obj" where
  "lodash_set object n v =
     (case baseSet (JObj object) (castPath n object) v of JObj r \<Rightarrow> r | _ \<Rightarrow> object)"

section \<open>Field authorizer and field filter\<close>

text \<open>The \<open>while\<close> loop of \<open>authorizeFields\<close>: drop the last part of the path until a proper
  prefix of it is in the allow-list or one part is left.\<close>

function parentAllowed :: "string list \<Rightarrow> string list \<Rightarrow> bool" where
  "parentAllowed allow parts =
     (if length parts > 1
      then (if join ''.'' (butlast parts) \<in> set allow then True
            else parentAllowed allow (butlast parts))
      else False)"
  by pat_completeness auto
termination
  by (relation "measure (\<lambda>(allow, parts). length parts)") auto

text \<open>The body of \<open>fields.forEach\<close>: what one requested field \<open>f\<close> adds to \<open>res\<close>.\<close>

definition authorizeField :: "string list \<Rightarrow> string list \<Rightarrow> string \<Rightarrow> string list" where
  "authorizeField allow res f =
     (if f \<in> set allow then res @ [f]
      else
        (let res1 = (if CHR ''.'' \<in> set f \<and> parentAllowed allow (split_on CHR ''.'' f)
                     then res @ [f] else res);
             nestedFields = filter (\<lambda>prp. str_includes prp (f @ ''.'')) allow
         in if nestedFields \<noteq> [] then res1 @ nestedFields else res1))"

text \<open>The requested list is \<open>None\<close> when it is not an array.\<close>

definition authorizeFields :: "settings \<Rightarrow> string list option \<Rightarrow> string list option" where
  "authorizeFields st flds =
     (case fields' st of
        Some allow \<Rightarrow>
          if allow \<noteq> []
          then Some (case flds of
                       Some fs \<Rightarrow> if fs \<noteq> [] then foldl (authorizeField allow) [] fs else []
                     | None \<Rightarrow> [])
          else flds
      | None \<Rightarrow> flds)"

definition filterFields :: "obj \<Rightarrow> string list option \<Rightarrow> obj" where
  "filterFields doc flds =
     (case flds of
        Some fs \<Rightarrow>
          foldl (\<lambda>res n. if lodash_get doc n \<noteq> JUndefined then lodash_set res n (lodash_get doc n)
                          else res) [] fs
      | None \<Rightarrow> doc)"

text \<open>The field authorizer as the specification words it: a requested field is kept when it
  is in the allow-list; otherwise when one of its dotted-path parents is; otherwise the
  allow-list entries that are strict sub-paths of it take its place.\<close>

definition spec_parents :: "string \<Rightarrow> string list" where
  "spec_parents f =
     map (\<lambda>n. join ''.'' (take n (split_on CHR ''.'' f))) [1 ..< length (split_on CHR ''.'' f)]"

definition spec_subpaths :: "string list \<Rightarrow> string \<Rightarrow> string list" where
  "spec_subpaths allow f = filter (\<lambda>e. prefix (f @ ''.'') e) allow"

definition spec_authorizeField :: "string list \<Rightarrow> string \<Rightarrow> string list" where
  "spec_authorizeField allow f =
     (if f \<in> set allow then [f]
      else if \<exists>q \<in> set (spec_parents f). q \<in> set allow then [f]
      else spec_subpaths allow f)"

section \<open>Observable effects\<close>

text \<open>Calls to the collaborators are recorded in the order in which they are issued:
  the remote call made for a relation (with the relation field, as the rule's \<open>field\<close>), the
  call of a custom population handler, the calls to the storage adapter, the cache
  invalidation broadcast, the purge of the cacher, and the call of a lifecycle hook.\<close>

datatype event =
    RemoteCall string string obj
  | HandlerCall string "jsval list"
  | AdapterFind obj
  | AdapterCount obj
  | AdapterFindById jsval
  | AdapterFindByIds "jsval list"
  | AdapterUpdateById jsval obj
  | AdapterRemoveById jsval
  | Broadcast string
  | CacherClean string
  | HookCall string jsval

section \<open>Population resolver\<close>

fun rule_handler :: "rule \<Rightarrow> handler option" where
  "rule_handler (RuleFunction h) = Some h"
| "rule_handler (RuleString a) = None"
| "rule_handler (RuleObject a ps pop h) = h"

fun rule_action :: "rule \<Rightarrow> string" where
  "rule_action (RuleFunction h) = []"
| "rule_action (RuleString a) = a"
| "rule_action (RuleObject a ps pop h) = a"

text \<open>\<open>rule.params || {}\<close> and \<open>rule.populate\<close>.\<close>

fun rule_params :: "rule \<Rightarrow> obj" where
  "rule_params (RuleObject a (Some ps) pop h) = ps"
| "rule_params r = []"

fun rule_populate :: "rule \<Rightarrow> jsval" where
  "rule_populate (RuleObject a ps pop h) = pop"
| "rule_populate r = JUndefined"

definition idListOf :: "string \<Rightarrow> obj list \<Rightarrow> jsval list" where
  "idListOf field arr = uniq (flattenDeep (compact (map (\<lambda>doc. obj_get doc field) arr)))"

text \<open>\<open>populatedDocs[id]\<close> reads the property whose key is the string form of \<open>id\<close>.\<close>

definition resultTransform :: "string \<Rightarrow> obj \<Rightarrow> obj list \<Rightarrow> obj list" where
  "resultTransform field populatedDocs arr =
     map (\<lambda>doc.
            (case obj_get doc field of
               JArr ids \<Rightarrow>
                 obj_set doc field
                   (JArr (compact (map (\<lambda>i. obj_get populatedDocs (to_string i)) ids)))
             | i \<Rightarrow> obj_set doc field (obj_get populatedDocs (to_string i))))
         arr"

definition callParams :: "rule \<Rightarrow> jsval list \<Rightarrow> obj" where
  "callParams r idList =
     obj_set
       (object_assign
          [(''id'', JArr idList), (''mapping'', JBool True), (''populate'', rule_populate r)]
          (rule_params r))
       ''ignoreSoftDelete'' (JBool True)"

text \<open>The state of the \<open>_.forIn\<close> loop over the rules: the documents (a custom handler is
  called inside the loop and works on them at once), the remote results whose
  \<open>resultTransform\<close> is still to run, the calls issued, and the first failure.\<close>

record popstate =
  ps_docs :: "obj list"
  ps_pending :: "(string \<times> obj) list"
  ps_events :: "event list"
  ps_failure :: "error option"

definition first_failure :: "error option \<Rightarrow> error \<Rightarrow> error option" where
  "first_failure old e = (case old of None \<Rightarrow> Some e | Some e0 \<Rightarrow> Some e0)"

definition populateRule ::
  "(string \<Rightarrow> obj \<Rightarrow> error + obj) \<Rightarrow> jsval list \<Rightarrow> popstate \<Rightarrow> string \<times> rule \<Rightarrow> popstate" where
  "populateRule call populateFields s fr =
     (case fr of (field, r) \<Rightarrow>
        if JStr field \<notin> set populateFields then s
        else
          (let idList = idListOf field (ps_docs s) in
           case rule_handler r of
             Some h \<Rightarrow>
               (case h idList (ps_docs s) of
                  Inr ds \<Rightarrow> s\<lparr>ps_docs := ds, ps_events := ps_events s @ [HandlerCall field idList]\<rparr>
                | Inl e \<Rightarrow> s\<lparr>ps_events := ps_events s @ [HandlerCall field idList],
                             ps_failure := first_failure (ps_failure s) e\<rparr>)
           | None \<Rightarrow>
               if idList \<noteq> [] then
                 (case call (rule_action r) (callParams r idList) of
                    Inr m \<Rightarrow>
                      s\<lparr>ps_pending := ps_pending s @ [(field, m)],
                        ps_events := ps_events s
                          @ [RemoteCall field (rule_action r) (callParams r idList)]\<rparr>
                  | Inl e \<Rightarrow>
                      s\<lparr>ps_events := ps_events s
                          @ [RemoteCall field (rule_action r) (callParams r idList)],
                        ps_failure := first_failure (ps_failure s) e\<rparr>)
               else s))"

text \<open>\<open>populateDocs\<close> on an array of documents, as \<open>transformDocuments\<close> calls it. The
  remote results are applied once the loop is over (\<open>.then(resultTransform)\<close>), and
  \<open>Promise.all\<close> fails when one of the calls failed.\<close>

definition populateDocs ::
  "settings \<Rightarrow> (string \<Rightarrow> obj \<Rightarrow> error + obj) \<Rightarrow> obj list \<Rightarrow> jsval
     \<Rightarrow> (error + obj list) \<times> event list" where
  "populateDocs st call docs populateFields =
     (case populates st of
        None \<Rightarrow> (Inr docs, [])
      | Some rules \<Rightarrow>
          (case populateFields of
             JArr pf \<Rightarrow>
               if pf = [] then (Inr docs, [])
               else
                 (let s = foldl (populateRule call pf)
                            \<lparr>ps_docs = docs, ps_pending = [], ps_events = [], ps_failure = None\<rparr>
                            rules;
                      ds = foldl (\<lambda>ds (field, m). resultTransform field m ds)
                             (ps_docs s) (ps_pending s)
                  in (case ps_failure s of Some e \<Rightarrow> Inl e | None \<Rightarrow> Inr ds, ps_events s))
           | _ \<Rightarrow> (Inr docs, [])))"

section \<open>Document transformer\<close>

text \<open>The storage adapter is a collaborator behind a fixed contract. Its operations read and
  change a store of type \<open>'s\<close> and may fail.\<close>

record 's adapter =
  adapter_find :: "'s \<Rightarrow> obj \<Rightarrow> error + jsval"
  adapter_count :: "'s \<Rightarrow> obj \<Rightarrow> error + jsval"
  adapter_findById :: "'s \<Rightarrow> jsval \<Rightarrow> error + jsval"
  adapter_findByIds :: "'s \<Rightarrow> jsval list \<Rightarrow> error + jsval"
  adapter_updateById :: "'s \<Rightarrow> jsval \<Rightarrow> obj \<Rightarrow> (error + jsval) \<times> 's"
  adapter_removeById :: "'s \<Rightarrow> jsval \<Rightarrow> (error + jsval) \<times> 's"
  entityToObject :: "jsval \<Rightarrow> obj"
  afterRetrieveTransformID :: "obj \<Rightarrow> string \<Rightarrow> obj"

text \<open>The service: settings, adapter, full name, whether the broker has a cacher, and the
  lifecycle hooks of the schema by name.\<close>

record 's service =
  svc_settings :: settings
  svc_adapter :: "'s adapter"
  svc_fullName :: string
  svc_cacher :: bool
  svc_schema :: "string \<Rightarrow> (jsval \<Rightarrow> error + jsval) option"

record ctx =
  ctx_action :: string
  ctx_params :: obj
  ctx_call :: "string \<Rightarrow> obj \<Rightarrow> error + obj"

definition encodeID :: "jsval \<Rightarrow> jsval" where
  "encodeID i = i"

definition decodeID :: "jsval \<Rightarrow> jsval" where
  "decodeID i = i"

text \<open>The requested field list: \<open>params.fields\<close> when there is a context and the value is
  truthy, the configured list otherwise; a string is split at the blanks. The elements of a
  list are strings (the action schemas say so); another element is read by its string
  form. A value that is not an array is \<open>None\<close>.\<close>

definition fieldList :: "jsval \<Rightarrow> string list option" where
  "fieldList v =
     (case v of
        JStr s \<Rightarrow> Some (split_on CHR '' '' s)
      | JArr xs \<Rightarrow> Some (map to_string xs)
      | _ \<Rightarrow> None)"

definition requestedFields :: "settings \<Rightarrow> ctx option \<Rightarrow> obj \<Rightarrow> string list option" where
  "requestedFields st c params =
     (if c \<noteq> None \<and> js_truthy (obj_get params ''fields'')
      then fieldList (obj_get params ''fields'') else fields' st)"

definition encodeIDs :: "settings \<Rightarrow> obj list \<Rightarrow> obj list" where
  "encodeIDs st ds = map (\<lambda>doc. obj_set doc (idField st) (encodeID (obj_get doc (idField st)))) ds"

definition transformArray ::
  "'s service \<Rightarrow> ctx option \<Rightarrow> obj \<Rightarrow> jsval list \<Rightarrow> (error + obj list) \<times> event list" where
  "transformArray svc c params docs =
     (let st = svc_settings svc;
          ad = svc_adapter svc;
          ds = map (\<lambda>doc. afterRetrieveTransformID ad doc (idField st))
                 (encodeIDs st (map (entityToObject ad) docs));
          populated =
            (case c of
               Some cx \<Rightarrow>
                 if js_truthy (obj_get params ''populate'')
                 then populateDocs st (ctx_call cx) ds (obj_get params ''populate'')
                 else (Inr ds, [])
             | None \<Rightarrow> (Inr ds, []))
      in (case fst populated of
            Inl e \<Rightarrow> Inl e
          | Inr json \<Rightarrow>
              Inr (map (\<lambda>item. filterFields item
                                  (authorizeFields st (requestedFields st c params))) json),
          snd populated))"

definition transformDocuments ::
  "'s service \<Rightarrow> ctx option \<Rightarrow> obj \<Rightarrow> jsval \<Rightarrow> (error + jsval) \<times> event list" where
  "transformDocuments svc c params docs =
     (case docs of
        JArr xs \<Rightarrow>
          (case transformArray svc c params xs of
             (Inr json, evs) \<Rightarrow> (Inr (JArr (map JObj json)), evs)
           | (Inl e, evs) \<Rightarrow> (Inl e, evs))
      | JObj d \<Rightarrow>
          (case transformArray svc c params [docs] of
             (Inr json, evs) \<Rightarrow> (Inr (case json of j # js \<Rightarrow> JObj j | [] \<Rightarrow> JUndefined), evs)
           | (Inl e, evs) \<Rightarrow> (Inl e, evs))
      | _ \<Rightarrow> (Inr docs, []))"

section \<open>Methods and action handlers\<close>

text \<open>A promise chain over the store: a step returns a value or fails, leaves a store, and
  lists the calls it issued. \<open>bindIO\<close> is \<open>.then\<close>: a failure skips the rest of the chain, and
  what was done to the store before the failure stays done.\<close>

type_synonym ('s, 'a) io = "'s \<Rightarrow> (error + 'a) \<times> 's \<times> event list"

definition ret :: "'a \<Rightarrow> ('s, 'a) io" where
  "ret x s = (Inr x, s, [])"

definition reject :: "error \<Rightarrow> ('s, 'a) io" where
  "reject e s = (Inl e, s, [])"

definition bindIO :: "('s, 'a) io \<Rightarrow> ('a \<Rightarrow> ('s, 'b) io) \<Rightarrow> ('s, 'b) io" where
  "bindIO m f s =
     (case m s of
        (Inl e, s1, evs) \<Rightarrow> (Inl e, s1, evs)
      | (Inr x, s1, evs) \<Rightarrow> (case f x s1 of (r, s2, evs') \<Rightarrow> (r, s2, evs @ evs')))"

definition emit :: "event \<Rightarrow> ('s, unit) io" where
  "emit ev s = (Inr (), s, [ev])"

definition liftE :: "error + 'a \<Rightarrow> ('s, 'a) io" where
  "liftE r s = (r, s, [])"

text \<open>A call that reads the store, a call that changes it, and a step that only issues
  calls to other services.\<close>

definition readStore :: "event \<Rightarrow> ('s \<Rightarrow> error + 'a) \<Rightarrow> ('s, 'a) io" where
  "readStore ev f s = (f s, s, [ev])"

definition writeStore :: "event \<Rightarrow> ('s \<Rightarrow> (error + 'a) \<times> 's) \<Rightarrow> ('s, 'a) io" where
  "writeStore ev f s = (fst (f s), snd (f s), [ev])"

definition calls :: "(error + 'a) \<times> event list \<Rightarrow> ('s, 'a) io" where
  "calls r s = (fst r, s, snd r)"

definition getById :: "'s service \<Rightarrow> jsval \<Rightarrow> bool \<Rightarrow> ('s, jsval) io" where
  "getById svc i decoding =
     (case i of
        JArr ids \<Rightarrow>
          readStore (AdapterFindByIds (if decoding then map decodeID ids else ids))
            (\<lambda>s. adapter_findByIds (svc_adapter svc) s (if decoding then map decodeID ids else ids))
      | _ \<Rightarrow>
          readStore (AdapterFindById (if decoding then decodeID i else i))
            (\<lambda>s. adapter_findById (svc_adapter svc) s (if decoding then decodeID i else i)))"

definition clearCache :: "'s service \<Rightarrow> ('s, unit) io" where
  "clearCache svc =
     bindIO (emit (Broadcast (''cache.clean.'' @ svc_fullName svc))) (\<lambda>u.
       if svc_cacher svc then emit (CacherClean (svc_fullName svc @ ''.*'')) else ret ())"

text \<open>\<open>_.capitalize\<close>: the first character in upper case, the rest in lower case.\<close>

definition lower_chars :: string where
  "lower_chars = ''abcdefghijklmnopqrstuvwxyz''"

definition upper_chars :: string where
  "upper_chars = ''ABCDEFGHIJKLMNOPQRSTUVWXYZ''"

definition toUpper :: "char \<Rightarrow> char" where
  "toUpper c = (case map_of (zip lower_chars upper_chars) c of Some u \<Rightarrow> u | None \<Rightarrow> c)"

definition toLower :: "char \<Rightarrow> char" where
  "toLower c = (case map_of (zip upper_chars lower_chars) c of Some l \<Rightarrow> l | None \<Rightarrow> c)"

definition capitalize :: "string \<Rightarrow> string" where
  "capitalize s = (case s of [] \<Rightarrow> [] | c # cs \<Rightarrow> toUpper c # map toLower cs)"

definition entityChanged :: "'s service \<Rightarrow> string \<Rightarrow> jsval \<Rightarrow> ('s, unit) io" where
  "entityChanged svc type json =
     bindIO (clearCache svc) (\<lambda>u.
       (case svc_schema svc (''entity'' @ capitalize type) of
          Some hook \<Rightarrow>
            bindIO (emit (HookCall (''entity'' @ capitalize type) json)) (\<lambda>u.
            bindIO (liftE (hook json)) (\<lambda>r. ret ()))
        | None \<Rightarrow> ret ()))"

text \<open>\<open>v[k]\<close> where \<open>v\<close> may be \<open>null\<close> or \<open>undefined\<close>.\<close>

definition js_member :: "jsval \<Rightarrow> string \<Rightarrow> error + jsval" where
  "js_member v k = (if v = JNull \<or> v = JUndefined then Inl TypeError else Inr (js_prop v k))"

text \<open>The re-keying of \<open>_get\<close> in mapping mode: \<open>res[origDoc[i][idField]] = doc\<close>.\<close>

fun mapById :: "string \<Rightarrow> obj \<Rightarrow> jsval list \<Rightarrow> jsval list \<Rightarrow> error + obj" where
  "mapById idf res (orig # origs) (doc # docs) =
     bindE (js_member orig idf) (\<lambda>i. mapById idf (obj_set res (to_string i) doc) origs docs)"
| "mapById idf res origs [] = Inr res"
| "mapById idf res [] (doc # docs) = Inl TypeError"

definition method_get :: "'s service \<Rightarrow> ctx \<Rightarrow> obj \<Rightarrow> ('s, jsval) io" where
  "method_get svc c params =
     bindIO (getById svc (obj_get params ''id'') True) (\<lambda>doc.
       if \<not> js_truthy doc then reject (EntityNotFoundError (obj_get params ''id''))
       else
         bindIO (calls (transformDocuments svc (Some c) params doc)) (\<lambda>json.
           (case (json, doc) of
              (JArr js, JArr origDoc) \<Rightarrow>
                if obj_get params ''mapping'' = JBool True
                then bindIO (liftE (mapById (idField (svc_settings svc)) [] origDoc js))
                       (\<lambda>res. ret (JObj res))
                else ret json
            | _ \<Rightarrow> ret json)))"

text \<open>The \<open>$set\<close> object of \<open>_update\<close>: every parameter but \<open>id\<close> and the identity field.\<close>

definition updateSets :: "settings \<Rightarrow> obj \<Rightarrow> jsval \<times> obj" where
  "updateSets st params =
     foldl (\<lambda>(i, sets) prp.
              if prp = ''id'' \<or> prp = idField st then (decodeID (obj_get params prp), sets)
              else (i, obj_set sets prp (obj_get params prp)))
       (JUndefined, []) (object_keys params)"

definition method_update :: "'s service \<Rightarrow> ctx \<Rightarrow> obj \<Rightarrow> ('s, jsval) io" where
  "method_update svc c params =
     (let i = fst (updateSets (svc_settings svc) params);
          sets = snd (updateSets (svc_settings svc) params)
      in bindIO (writeStore (AdapterUpdateById i [(''$set'', JObj sets)])
                   (\<lambda>s. adapter_updateById (svc_adapter svc) s i [(''$set'', JObj sets)])) (\<lambda>doc.
           if \<not> js_truthy doc then reject (EntityNotFoundError i)
           else
             bindIO (calls (transformDocuments svc (Some c) params doc)) (\<lambda>json.
             bindIO (entityChanged svc ''updated'' json) (\<lambda>u. ret json))))"

definition method_remove :: "'s service \<Rightarrow> ctx \<Rightarrow> obj \<Rightarrow> ('s, jsval) io" where
  "method_remove svc c params =
     bindIO (writeStore (AdapterRemoveById (decodeID (obj_get params ''id'')))
               (\<lambda>s. adapter_removeById (svc_adapter svc) s (decodeID (obj_get params ''id'')))) (\<lambda>doc.
       if \<not> js_truthy doc then reject (EntityNotFoundError (obj_get params ''id''))
       else
         bindIO (calls (transformDocuments svc (Some c) params doc)) (\<lambda>json.
         bindIO (entityChanged svc ''removed'' json) (\<lambda>u. ret json)))"

text \<open>The parameters of the count: \<open>limit\<close> and \<open>offset\<close> are set to \<open>null\<close> when truthy.\<close>

definition countParams :: "obj \<Rightarrow> obj" where
  "countParams params =
     (let p1 = (if js_truthy (obj_get params ''limit'') then obj_set params ''limit'' JNull
                else params)
      in if js_truthy (obj_get p1 ''offset'') then obj_set p1 ''offset'' JNull else p1)"

definition totalPages :: "(string \<Rightarrow> jsnum) \<Rightarrow> jsval \<Rightarrow> jsval \<Rightarrow> jsval" where
  "totalPages N res1 psize =
     JNum (floor_div (to_number N (js_minus N (js_plus N res1 psize) (JNum (Fin 1))))
             (to_number N psize))"

text \<open>\<open>Promise.all\<close> of \<open>_list\<close>: both requests are issued, the rows first, before either
  result is looked at; the first failure is the failure of the whole.\<close>

definition findAndCount :: "'s service \<Rightarrow> obj \<Rightarrow> ('s, jsval \<times> jsval) io" where
  "findAndCount svc params s =
     (case adapter_find (svc_adapter svc) s params of
        Inl e \<Rightarrow> Inl e
      | Inr res0 \<Rightarrow>
          (case adapter_count (svc_adapter svc) s (countParams params) of
             Inl e \<Rightarrow> Inl e
           | Inr res1 \<Rightarrow> Inr (res0, res1)),
      s, [AdapterFind params, AdapterCount (countParams params)])"

definition method_list :: "(string \<Rightarrow> jsnum) \<Rightarrow> 's service \<Rightarrow> ctx \<Rightarrow> obj \<Rightarrow> ('s, jsval) io" where
  "method_list N svc c params =
     bindIO (findAndCount svc params) (\<lambda>res.
     bindIO (calls (transformDocuments svc (Some c) params (fst res))) (\<lambda>docs.
       ret (JObj [(''rows'', docs), (''total'', snd res),
                  (''page'', obj_get params ''page''),
                  (''pageSize'', obj_get params ''pageSize''),
                  (''totalPages'', totalPages N (snd res) (obj_get params ''pageSize''))])))"

text \<open>\<open>Object.assign(params.query || {}, {isDeleted: "-1"})\<close>; the query is an object (the
  action schema says so).\<close>

definition notDeletedQuery :: "jsval \<Rightarrow> jsval" where
  "notDeletedQuery query =
     JObj (object_assign (case query of JObj q \<Rightarrow> q | _ \<Rightarrow> []) [(''isDeleted'', JStr ''-1'')])"

definition action_list :: "(string \<Rightarrow> jsnum) \<Rightarrow> 's service \<Rightarrow> ctx \<Rightarrow> ('s, jsval) io" where
  "action_list N svc c =
     bindIO (liftE (sanitizeParams N (svc_settings svc) (ctx_action c) (ctx_params c))) (\<lambda>params.
       method_list N svc c
         (if softDelete (svc_settings svc) \<and> \<not> js_truthy (obj_get params ''ignoreSoftDelete'')
          then obj_set params ''query'' (notDeletedQuery (obj_get params ''query''))
          else params))"

definition action_get :: "(string \<Rightarrow> jsnum) \<Rightarrow> 's service \<Rightarrow> ctx \<Rightarrow> ('s, jsval) io" where
  "action_get N svc c =
     bindIO (liftE (sanitizeParams N (svc_settings svc) (ctx_action c) (ctx_params c))) (\<lambda>params.
     bindIO (method_get svc c params) (\<lambda>data.
       if softDelete (svc_settings svc) \<and> \<not> js_truthy (obj_get params ''ignoreSoftDelete'')
          \<and> js_prop data ''isDeleted'' \<noteq> JStr ''-1''
       then reject (EntityLogicallyNotFoundError (obj_get params ''id''))
       else ret data))"

definition action_update :: "'s service \<Rightarrow> ctx \<Rightarrow> ('s, jsval) io" where
  "action_update svc c =
     bindIO (method_get svc c (ctx_params c)) (\<lambda>data.
       if softDelete (svc_settings svc) \<and> js_prop data ''isDeleted'' \<noteq> JStr ''-1''
       then reject (EntityLogicallyNotFoundError (obj_get (ctx_params c) ''id''))
       else method_update svc c (ctx_params c))"

text \<open>\<open>now\<close> is the value of \<open>new Date().getTime()\<close>.\<close>

definition action_remove ::
  "(string \<Rightarrow> jsnum) \<Rightarrow> 's service \<Rightarrow> int \<Rightarrow> ctx \<Rightarrow> ('s, jsval) io" where
  "action_remove N svc now c =
     bindIO (liftE (sanitizeParams N (svc_settings svc) (ctx_action c) (ctx_params c))) (\<lambda>params.
       if \<not> softDelete (svc_settings svc) then method_remove svc c params
       else
         bindIO (method_get svc c params) (\<lambda>data.
           if js_prop data ''isDeleted'' \<noteq> JStr ''-1''
           then reject (EntityLogicallyNotFoundError (obj_get params ''id''))
           else method_update svc c (obj_set params ''isDeleted'' (JNum (Fin now)))))"

section \<open>An adapter for the examples\<close>

text \<open>Modelled from the spec: the memory adapter (\<^verbatim>\<open>./memory-adapter\<close>) is not among the source
  files. This instance of the adapter contract of the specification keeps the documents in
  a list, identifies them by \<open>_id\<close>, filters by the equalities of \<open>query\<close> and pages by
  \<open>offset\<close> and \<open>limit\<close>. The theorems below hold for every adapter; this one only serves
  as a concrete instance in the examples.\<close>

definition matchesQuery :: "jsval \<Rightarrow> obj \<Rightarrow> bool" where
  "matchesQuery query doc =
     (case query of JObj q \<Rightarrow> list_all (\<lambda>(k, v). obj_get doc k = v) q | _ \<Rightarrow> True)"

definition pageOf :: "obj \<Rightarrow> obj list \<Rightarrow> obj list" where
  "pageOf params rows =
     (let skipped = (case obj_get params ''offset'' of
                       JNum (Fin n) \<Rightarrow> drop (nat n) rows | _ \<Rightarrow> rows)
      in (case obj_get params ''limit'' of JNum (Fin n) \<Rightarrow> take (nat n) skipped | _ \<Rightarrow> skipped))"

definition withId :: "jsval \<Rightarrow> obj \<Rightarrow> bool" where
  "withId i doc = (obj_get doc ''_id'' = i)"

definition memoryAdapter :: "(obj list) adapter" where
  "memoryAdapter =
     \<lparr> adapter_find = (\<lambda>s params.
         Inr (JArr (map JObj (pageOf params (filter (matchesQuery (obj_get params ''query'')) s))))),
       adapter_count = (\<lambda>s params.
         Inr (JNum (Fin (int (length (filter (matchesQuery (obj_get params ''query'')) s)))))),
       adapter_findById = (\<lambda>s i.
         Inr (case List.find (withId i) s of Some d \<Rightarrow> JObj d | None \<Rightarrow> JNull)),
       adapter_findByIds = (\<lambda>s ids.
         Inr (JArr (map JObj (filter (\<lambda>d. obj_get d ''_id'' \<in> set ids) s)))),
       adapter_updateById = (\<lambda>s i upd.
         (case List.find (withId i) s of
            None \<Rightarrow> (Inr JNull, s)
          | Some d \<Rightarrow>
              (Inr (JObj (object_assign d (case obj_get upd ''$set'' of JObj sets \<Rightarrow> sets | _ \<Rightarrow> []))),
               map (\<lambda>x. if withId i x
                         then object_assign x (case obj_get upd ''$set'' of JObj sets \<Rightarrow> sets | _ \<Rightarrow> [])
                         else x) s))),
       adapter_removeById = (\<lambda>s i.
         (case List.find (withId i) s of
            None \<Rightarrow> (Inr JNull, s)
          | Some d \<Rightarrow> (Inr (JObj d), filter (\<lambda>x. \<not> withId i x) s))),
       entityToObject = (\<lambda>v. case v of JObj d \<Rightarrow> d | _ \<Rightarrow> []),
       afterRetrieveTransformID = (\<lambda>doc idf.
         if idf \<noteq> ''_id'' then AList.delete ''_id'' (obj_set doc idf (obj_get doc ''_id''))
         else doc) \<rparr>"

definition memoryService :: "settings \<Rightarrow> (obj list) service" where
  "memoryService st =
     \<lparr> svc_settings = st, svc_adapter = memoryAdapter, svc_fullName = ''posts'',
       svc_cacher = True, svc_schema = (\<lambda>n. None) \<rparr>"

definition noCall :: "string \<Rightarrow> obj \<Rightarrow> error + obj" where
  "noCall a p = Inl (Rejected ''Service not found'')"

definition request :: "string \<Rightarrow> obj \<Rightarrow> ctx" where
  "request a p = \<lparr> ctx_action = a, ctx_params = p, ctx_call = noCall \<rparr>"

section \<open>Vocabulary of the population claims\<close>

text \<open>The values of a relation field across the documents; the relation a recorded call
  was made for; the id list as the specification words it (flatten, remove the nulls,
  deduplicate); and the entity or entities a relation value resolves to under a mapping
  from id to entity.\<close>

definition fieldValues :: "string \<Rightarrow> obj list \<Rightarrow> jsval list" where
  "fieldValues f docs = map (\<lambda>doc. obj_get doc f) docs"

fun event_field :: "event \<Rightarrow> string option" where
  "event_field (RemoteCall f a p) = Some f"
| "event_field (HandlerCall f ids) = Some f"
| "event_field ev = None"

definition callsFor :: "string \<Rightarrow> event list \<Rightarrow> event list" where
  "callsFor f evs = filter (\<lambda>ev. event_field ev = Some f) evs"

definition spec_idList :: "jsval list \<Rightarrow> jsval list" where
  "spec_idList vals = uniq (filter (\<lambda>v. v \<noteq> JNull \<and> v \<noteq> JUndefined) (flattenDeep vals))"

definition truthy_idList :: "jsval list \<Rightarrow> jsval list" where
  "truthy_idList vals = uniq (filter js_truthy (flattenDeep vals))"

definition spec_resolved :: "obj \<Rightarrow> jsval \<Rightarrow> jsval" where
  "spec_resolved m v =
     (case v of
        JArr ids \<Rightarrow> JArr (filter js_truthy (map (\<lambda>i. obj_get m (to_string i)) ids))
      | i \<Rightarrow> obj_get m (to_string i))"

text \<open>A relation value is free of nested falsy elements when it is no list, or a list whose
  elements, at any depth, are truthy.\<close>

definition noNestedFalsy :: "jsval \<Rightarrow> bool" where
  "noNestedFalsy v = (case v of JArr xs \<Rightarrow> list_all js_truthy (flattenDeep xs) | _ \<Rightarrow> True)"

text \<open>The custom handlers of a rule list keep a relation field when none of them changes the
  values of that field.\<close>

definition handlersKeep :: "string \<Rightarrow> (string \<times> rule) list \<Rightarrow> bool" where
  "handlersKeep f rules =
     (\<forall>gr \<in> set rules. \<forall>h ids ds ds'.
        rule_handler (snd gr) = Some h \<longrightarrow> h ids ds = Inr ds'
          \<longrightarrow> fieldValues f ds' = fieldValues f ds)"

definition pendingFor :: "string \<Rightarrow> (string \<times> obj) list \<Rightarrow> (string \<times> obj) list" where
  "pendingFor f P = filter (\<lambda>gm. fst gm = f) P"

section \<open>Data of the population examples\<close>

text \<open>A remote action that resolves the ids \<open>42\<close> and \<open>7\<close>, a relation \<open>owner\<close> resolved by it,
  and the same relation resolved by a custom handler.\<close>

definition usersGet :: "string \<Rightarrow> obj \<Rightarrow> error + obj" where
  "usersGet a p =
     Inr [(''42'', JObj [(''name'', JStr ''Ann'')]), (''7'', JObj [(''name'', JStr ''Bob'')])]"

definition ownerByAction :: settings where
  "ownerByAction = defaultSettings\<lparr>populates := Some [(''owner'', RuleString ''users.get'')]\<rparr>"

definition nobody :: handler where
  "nobody ids ds = Inr (map (\<lambda>d. obj_set d ''owner'' (JStr ''nobody'')) ds)"

definition ownerByHandler :: settings where
  "ownerByHandler = defaultSettings\<lparr>populates := Some [(''owner'', RuleFunction nobody)]\<rparr>"

section \<open>Data of the listing example\<close>

text \<open>A collection of 25 documents.\<close>

definition posts25 :: "obj list" where
  "posts25 = map (\<lambda>i. [(''_id'', JNum (Fin (int i))), (''title'', JStr ''post'')]) [1 ..< 26]"

section \<open>Vocabulary of the soft-delete claims\<close>

text \<open>The calls that only load: reads of the adapter and population calls. The calls of a
  hard removal: \<open>removeById\<close> and the \<open>entityRemoved\<close> hook.\<close>

fun load_event :: "event \<Rightarrow> bool" where
  "load_event (AdapterFindById i) = True"
| "load_event (AdapterFindByIds ids) = True"
| "load_event (RemoteCall f a p) = True"
| "load_event (HandlerCall f ids) = True"
| "load_event ev = False"

fun removal_event :: "event \<Rightarrow> bool" where
  "removal_event (AdapterRemoveById i) = True"
| "removal_event (HookCall n j) = (n = ''entityRemoved'')"
| "removal_event ev = False"

text \<open>Three documents, the second one logically deleted.\<close>

definition posts3 :: "obj list" where
  "posts3 =
     [[(''_id'', JStr ''1''), (''name'', JStr ''a''), (''isDeleted'', JStr ''-1'')],
      [(''_id'', JStr ''2''), (''name'', JStr ''b''), (''isDeleted'', JNum (Fin 1700))],
      [(''_id'', JStr ''3''), (''name'', JStr ''c''), (''isDeleted'', JStr ''-1'')]]"

definition softSettings :: settings where
  "softSettings = defaultSettings\<lparr>softDelete := True\<rparr>"

text \<open>A service whose schema defines the hooks \<open>entityUpdated\<close> and \<open>entityRemoved\<close>.\<close>

definition hookedService :: "settings \<Rightarrow> (obj list) service" where
  "hookedService st =
     (memoryService st)
       \<lparr>svc_schema := (\<lambda>n. if n = ''entityUpdated'' \<or> n = ''entityRemoved''
                             then Some (\<lambda>json. Inr JUndefined) else None)\<rparr>"

section \<open>Properties of the parameter sanitizer\<close>

lemma num_gt_irrefl: "\<not> num_gt x x"
  by (cases x) auto

lemma obj_get_set: "obj_get (obj_set p k v) k' = (if k' = k then v else obj_get p k')"
  by (simp add: obj_get_def obj_set_def update_conv')

lemma stringToNumber_get:
  "obj_get (stringToNumber N k p) k' =
     (if k' = k then spec_numeric N (obj_get p k) else obj_get p k')"
  by (simp add: stringToNumber_def obj_get_set spec_numeric_def)

text \<open>The guard \<open>typeof === "string"\<close> protects the method calls: \<open>stringToList\<close> never throws,
  and it only writes its own key.\<close>

lemma stringToList_total:
  "\<exists>q. stringToList k p = Inr q \<and> (\<forall>k'. k' \<noteq> k \<longrightarrow> obj_get q k' = obj_get p k')"
  by (cases "obj_get p k") (auto simp: stringToList_def replace_split_def bindE_def obj_get_set)

lemma sanitize_shape:
  "\<exists>q. sanitizeParams N st a p =
          Inr (limitTheLimit N st (if suffix ''.list'' a then paginate N st q else q))
     \<and> obj_get q ''limit'' = spec_numeric N (obj_get p ''limit'')
     \<and> obj_get q ''offset'' = spec_numeric N (obj_get p ''offset'')
     \<and> obj_get q ''page'' = spec_numeric N (obj_get p ''page'')
     \<and> obj_get q ''pageSize'' = spec_numeric N (obj_get p ''pageSize'')"
proof -
  define p0 where "p0 = stringToNumber N ''pageSize'' (stringToNumber N ''page''
      (stringToNumber N ''offset'' (stringToNumber N ''limit'' p)))"
  obtain p1 where 1: "stringToList ''sort'' p0 = Inr p1"
    and k1: "\<And>k'. k' \<noteq> ''sort'' \<Longrightarrow> obj_get p1 k' = obj_get p0 k'"
    using stringToList_total by blast
  obtain p2 where 2: "stringToList ''fields'' p1 = Inr p2"
    and k2: "\<And>k'. k' \<noteq> ''fields'' \<Longrightarrow> obj_get p2 k' = obj_get p1 k'"
    using stringToList_total by blast
  obtain p3 where 3: "stringToList ''populate'' p2 = Inr p3"
    and k3: "\<And>k'. k' \<noteq> ''populate'' \<Longrightarrow> obj_get p3 k' = obj_get p2 k'"
    using stringToList_total by blast
  obtain p4 where 4: "stringToList ''searchFields'' p3 = Inr p4"
    and k4: "\<And>k'. k' \<noteq> ''searchFields'' \<Longrightarrow> obj_get p4 k' = obj_get p3 k'"
    using stringToList_total by blast
  have "sanitizeParams N st a p =
          Inr (limitTheLimit N st (if suffix ''.list'' a then paginate N st p4 else p4))"
    using 1 2 3 4 by (simp add: sanitizeParams_def bindE_def p0_def [symmetric])
  moreover have "obj_get p4 ''limit'' = spec_numeric N (obj_get p ''limit'')"
    by (simp add: k1 k2 k3 k4 p0_def stringToNumber_get)
  moreover have "obj_get p4 ''offset'' = spec_numeric N (obj_get p ''offset'')"
    by (simp add: k1 k2 k3 k4 p0_def stringToNumber_get)
  moreover have "obj_get p4 ''page'' = spec_numeric N (obj_get p ''page'')"
    by (simp add: k1 k2 k3 k4 p0_def stringToNumber_get)
  moreover have "obj_get p4 ''pageSize'' = spec_numeric N (obj_get p ''pageSize'')"
    by (simp add: k1 k2 k3 k4 p0_def stringToNumber_get)
  ultimately show ?thesis by blast
qed

lemma paginate_pageSize:
  "obj_get (paginate N st q) ''pageSize'' =
     spec_clamp N (maxPageSize st)
       (if js_truthy (obj_get q ''pageSize'') then obj_get q ''pageSize'' else JNum (pageSize st))"
  by (auto simp add: paginate_def Let_def obj_get_set spec_clamp_def)

lemma paginate_page:
  "obj_get (paginate N st q) ''page'' =
     (if js_truthy (obj_get q ''page'') then obj_get q ''page'' else JNum (Fin 1))"
  by (simp add: paginate_def Let_def obj_get_set)

lemma paginate_limit:
  "obj_get (paginate N st q) ''limit'' = obj_get (paginate N st q) ''pageSize''"
  by (simp add: paginate_def Let_def obj_get_set)

lemma paginate_offset:
  "obj_get (paginate N st q) ''offset'' =
     js_times N (js_minus N (obj_get (paginate N st q) ''page'') (JNum (Fin 1)))
       (obj_get (paginate N st q) ''pageSize'')"
  by (simp add: paginate_def Let_def obj_get_set)

lemma limitTheLimit_get:
  "obj_get (limitTheLimit N st q) k =
     (if k = ''limit'' then spec_clamp N (maxLimit st) (obj_get q ''limit'') else obj_get q k)"
  by (simp add: limitTheLimit_def obj_get_set spec_clamp_def)

lemma suffix_list_ex: "suffix ''.list'' ''posts.list''" "\<not> suffix ''.list'' ''posts.find''"
  by (simp_all add: suffix_to_prefix)

text \<open>
  \<^bold>\<open>Claim C2.\<close> For every raw parameter record, \<open>sanitizeParams\<close> returns a record \<open>q\<close>. When
  the action is the paginated listing (its name ends with \<open>.list\<close>): \<open>pageSize\<close> is the
  requested page size (a string read as a number), replaced by the configured \<open>pageSize\<close>
  when it is unset (or otherwise falsy), and then clamped to \<open>maxPageSize\<close> when that maximum
  is positive and exceeded; \<open>page\<close> is the requested page, or 1 when unset; \<open>offset\<close> is
  \<open>(page - 1) * pageSize\<close> and \<open>limit\<close> is \<open>pageSize\<close>, computed from the resulting \<open>page\<close> and
  \<open>pageSize\<close> alone, whatever \<open>limit\<close> and \<open>offset\<close> the caller supplied. For every action the
  resolved \<open>limit\<close> (for the listing: \<open>pageSize\<close>; otherwise the caller's) is clamped to
  \<open>maxLimit\<close> when \<open>maxLimit\<close> is positive and exceeded, so that it never exceeds a positive
  \<open>maxLimit\<close>.
\<close>

theorem sanitizeParams_pagination:
  "\<exists>q. sanitizeParams N st a p = Inr q
     \<and> (suffix ''.list'' a \<longrightarrow>
          obj_get q ''pageSize'' =
            spec_clamp N (maxPageSize st)
              (if js_truthy (spec_numeric N (obj_get p ''pageSize''))
               then spec_numeric N (obj_get p ''pageSize'') else JNum (pageSize st))
        \<and> (obj_get p ''pageSize'' = JUndefined \<longrightarrow>
              obj_get q ''pageSize'' = spec_clamp N (maxPageSize st) (JNum (pageSize st)))
        \<and> obj_get q ''page'' =
            (if js_truthy (spec_numeric N (obj_get p ''page''))
             then spec_numeric N (obj_get p ''page'') else JNum (Fin 1))
        \<and> (obj_get p ''page'' = JUndefined \<longrightarrow> obj_get q ''page'' = JNum (Fin 1))
        \<and> obj_get q ''offset'' =
            js_times N (js_minus N (obj_get q ''page'') (JNum (Fin 1))) (obj_get q ''pageSize'')
        \<and> obj_get q ''limit'' = spec_clamp N (maxLimit st) (obj_get q ''pageSize''))
     \<and> (\<not> suffix ''.list'' a \<longrightarrow>
          obj_get q ''limit'' = spec_clamp N (maxLimit st) (spec_numeric N (obj_get p ''limit'')))
     \<and> (num_gt (maxLimit st) (Fin 0) \<longrightarrow> \<not> js_gt N (obj_get q ''limit'') (maxLimit st))"
proof -
  obtain q0 where s: "sanitizeParams N st a p =
          Inr (limitTheLimit N st (if suffix ''.list'' a then paginate N st q0 else q0))"
    and l: "obj_get q0 ''limit'' = spec_numeric N (obj_get p ''limit'')"
    and pg: "obj_get q0 ''page'' = spec_numeric N (obj_get p ''page'')"
    and ps: "obj_get q0 ''pageSize'' = spec_numeric N (obj_get p ''pageSize'')"
    using sanitize_shape [of N st a p] by blast
  let ?q = "limitTheLimit N st (if suffix ''.list'' a then paginate N st q0 else q0)"
  have u: "spec_numeric N JUndefined = JUndefined"
    by (simp add: spec_numeric_def)
  have c: "num_gt (maxLimit st) (Fin 0) \<longrightarrow> \<not> js_gt N (obj_get ?q ''limit'') (maxLimit st)"
    by (simp add: limitTheLimit_get spec_clamp_def js_gt_def num_gt_irrefl)
  have nl: "\<not> suffix ''.list'' a \<longrightarrow>
          obj_get ?q ''limit'' = spec_clamp N (maxLimit st) (spec_numeric N (obj_get p ''limit''))"
    by (simp add: limitTheLimit_get l)
  have li: "suffix ''.list'' a \<longrightarrow>
          obj_get ?q ''pageSize'' =
            spec_clamp N (maxPageSize st)
              (if js_truthy (spec_numeric N (obj_get p ''pageSize''))
               then spec_numeric N (obj_get p ''pageSize'') else JNum (pageSize st))
        \<and> (obj_get p ''pageSize'' = JUndefined \<longrightarrow>
              obj_get ?q ''pageSize'' = spec_clamp N (maxPageSize st) (JNum (pageSize st)))
        \<and> obj_get ?q ''page'' =
            (if js_truthy (spec_numeric N (obj_get p ''page''))
             then spec_numeric N (obj_get p ''page'') else JNum (Fin 1))
        \<and> (obj_get p ''page'' = JUndefined \<longrightarrow> obj_get ?q ''page'' = JNum (Fin 1))
        \<and> obj_get ?q ''offset'' =
            js_times N (js_minus N (obj_get ?q ''page'') (JNum (Fin 1))) (obj_get ?q ''pageSize'')
        \<and> obj_get ?q ''limit'' = spec_clamp N (maxLimit st) (obj_get ?q ''pageSize'')"
    using paginate_offset [of N st q0]
    by (simp add: limitTheLimit_get paginate_pageSize paginate_page paginate_limit pg ps u)
  from s c nl li show ?thesis by blast
qed

text \<open>The examples of the specification: \<open>maxPageSize = 5\<close> with \<open>pageSize = 100\<close>, \<open>page = 2\<close>
  (and a caller-supplied \<open>limit\<close>), and \<open>maxLimit = 10\<close> with \<open>limit = "50"\<close> on \<open>find\<close>.\<close>

theorem sanitizeParams_pagination_witness:
  "(\<exists>q. sanitizeParams decimalNumber (defaultSettings\<lparr>maxPageSize := Fin 5\<rparr>) ''posts.list''
          [(''pageSize'', JNum (Fin 100)), (''page'', JNum (Fin 2)), (''limit'', JNum (Fin 7))] = Inr q
      \<and> obj_get q ''pageSize'' = JNum (Fin 5) \<and> obj_get q ''page'' = JNum (Fin 2)
      \<and> obj_get q ''offset'' = JNum (Fin 5) \<and> obj_get q ''limit'' = JNum (Fin 5))
   \<and> (\<exists>q. sanitizeParams decimalNumber (defaultSettings\<lparr>maxLimit := Fin 10\<rparr>) ''posts.find''
          [(''limit'', JStr ''50'')] = Inr q
      \<and> obj_get q ''limit'' = JNum (Fin 10))"
  using sanitizeParams_pagination [of decimalNumber "defaultSettings\<lparr>maxPageSize := Fin 5\<rparr>"
      "''posts.list''" "[(''pageSize'', JNum (Fin 100)), (''page'', JNum (Fin 2)), (''limit'', JNum (Fin 7))]"]
    sanitizeParams_pagination [of decimalNumber "defaultSettings\<lparr>maxLimit := Fin 10\<rparr>"
      "''posts.find''" "[(''limit'', JStr ''50'')]"]
  by (auto simp: suffix_list_ex obj_get_def spec_numeric_def spec_clamp_def js_gt_def js_times_def
      js_minus_def num_sub_def defaultSettings_def decimalNumber_def digit_of_def digit_chars_def)



section \<open>Properties of the field authorizer\<close>

text \<open>
  \<^bold>\<open>Claim C3.\<close> The claim: with a non-empty allow-list a requested field is kept when it is in
  the allow-list; otherwise it is kept when one of its dotted-path parents is; otherwise
  exactly the allow-list entries that are strict sub-paths of it take its place; a field
  failing all three checks is dropped. \<open>authorizeFields\<close> does not do this. It selects the
  nested entries by \<open>prop.indexOf(f + ".") !== -1\<close>, which finds \<open>f + "."\<close> anywhere in the
  entry, not only at its start: with the allow-list \<open>["name", "user.address.city"]\<close> the
  request \<open>["address"]\<close> yields \<open>["user.address.city"]\<close>, which is no sub-path of
  \<open>address\<close>; the claim drops the field. It also goes on to the nested entries after the
  parent check has kept the field: with the allow-list \<open>["a", "a.b.c"]\<close> the request
  \<open>["a.b"]\<close> yields \<open>["a.b", "a.b.c"]\<close> where the claim keeps \<open>a.b\<close> alone.
\<close>

theorem authorizeFields_substring:
  "authorizeFields (defaultSettings\<lparr>fields' := Some [''name'', ''user.address.city'']\<rparr>)
       (Some [''address'']) = Some [''user.address.city'']
   \<and> spec_authorizeField [''name'', ''user.address.city''] ''address'' = []
   \<and> authorizeFields (defaultSettings\<lparr>fields' := Some [''a'', ''a.b.c'']\<rparr>) (Some [''a.b''])
       = Some [''a.b'', ''a.b.c'']
   \<and> spec_authorizeField [''a'', ''a.b.c''] ''a.b'' = [''a.b'']"
  by (simp add: authorizeFields_def authorizeField_def defaultSettings_def
      spec_authorizeField_def spec_parents_def spec_subpaths_def)

text \<open>The example of the specification and the pass-through without an allow-list do hold.\<close>

lemma authorizeFields_example:
  "authorizeFields (defaultSettings\<lparr>fields' := Some [''name'', ''address.city'']\<rparr>)
       (Some [''address'']) = Some [''address.city'']"
  by (simp add: authorizeFields_def authorizeField_def defaultSettings_def)

lemma authorizeFields_no_allow_list:
  "fields' st = None \<or> fields' st = Some [] \<Longrightarrow> authorizeFields st flds = flds"
  by (auto simp: authorizeFields_def)

section \<open>Properties of the methods\<close>

lemmas io_defs = ret_def reject_def bindIO_def emit_def liftE_def readStore_def writeStore_def
  calls_def



text \<open>An empty array is truthy: an adapter that answers a list of ids with the empty list of
  documents has returned something, and \<open>_get\<close> returns the empty list.\<close>

lemma get_empty_array:
  "fst (method_get (memoryService defaultSettings) (request ''posts.get'' [(''id'', JArr [JStr ''missing''])])
          [(''id'', JArr [JStr ''missing''])] []) = Inr (JArr [])"
  by (simp add: method_get_def io_defs getById_def memoryService_def memoryAdapter_def
      obj_get_def decodeID_def transformDocuments_def transformArray_def encodeIDs_def
      defaultSettings_def authorizeFields_def requestedFields_def)

section \<open>Properties of the population resolver\<close>

lemma flattenDeep_append: "flattenDeep (xs @ ys) = flattenDeep xs @ flattenDeep ys"
  by (induction xs rule: flattenDeep.induct) (auto split: jsval.splits)

lemma uniq_into_props:
  "distinct res \<Longrightarrow> distinct (uniq_into res xs) \<and> set (uniq_into res xs) = set res \<union> set xs"
  by (induction res xs rule: uniq_into.induct) auto


lemma set_uniq: "set (uniq xs) = set xs"
  by (simp add: uniq_def uniq_into_props)

lemma uniq_Nil_iff: "uniq xs = [] \<longleftrightarrow> xs = []"
  using set_uniq [of xs] by (metis set_empty)


lemma compact_flatten:
  "\<forall>v \<in> set vals. noNestedFalsy v \<Longrightarrow>
     flattenDeep (compact vals) = filter js_truthy (flattenDeep vals)"
proof (induction vals)
  case Nil
  then show ?case by (simp add: compact_def)
next
  case (Cons v vals)
  then have ih: "flattenDeep (compact vals) = filter js_truthy (flattenDeep vals)"
    by simp
  from Cons.prems have nv: "noNestedFalsy v" by simp
  show ?case
  proof (cases v)
    case (JArr xs)
    with nv have "filter js_truthy (flattenDeep xs) = flattenDeep xs"
      by (simp add: noNestedFalsy_def list_all_iff)
    with JArr ih show ?thesis by (simp add: compact_def)
  qed (use ih in \<open>simp_all add: compact_def\<close>)
qed

lemma idListOf_truthy:
  "\<forall>v \<in> set (fieldValues f docs). noNestedFalsy v \<Longrightarrow>
     idListOf f docs = truthy_idList (fieldValues f docs)"
  by (simp add: idListOf_def truthy_idList_def compact_flatten fieldValues_def)

lemma idListOf_cong:
  "fieldValues f ds = fieldValues f ds' \<Longrightarrow> idListOf f ds = idListOf f ds'"
  by (simp add: idListOf_def fieldValues_def)

lemma fieldValues_resultTransform_other:
  "g \<noteq> f \<Longrightarrow> fieldValues f (resultTransform g m ds) = fieldValues f ds"
  by (auto simp: fieldValues_def resultTransform_def obj_get_set split: jsval.splits)

lemma fieldValues_resultTransform_same:
  "fieldValues f (resultTransform f m ds) = map (spec_resolved m) (fieldValues f ds)"
  by (auto simp: fieldValues_def resultTransform_def obj_get_set spec_resolved_def compact_def
      split: jsval.splits)


lemma first_failure_Some: "first_failure old e \<noteq> None"
  by (simp add: first_failure_def split: option.splits)

lemma populateRule_failure:
  "ps_failure (populateRule call pf s x) = None \<Longrightarrow> ps_failure s = None"
  by (cases x)
    (auto simp: populateRule_def Let_def first_failure_Some split: option.splits sum.splits if_splits)

lemma populateRule_other:
  assumes "g \<noteq> f"
    and "\<And>h ids ds ds'. rule_handler r = Some h \<Longrightarrow> h ids ds = Inr ds'
            \<Longrightarrow> fieldValues f ds' = fieldValues f ds"
  shows "fieldValues f (ps_docs (populateRule call pf s (g, r))) = fieldValues f (ps_docs s)"
    and "callsFor f (ps_events (populateRule call pf s (g, r))) = callsFor f (ps_events s)"
    and "pendingFor f (ps_pending (populateRule call pf s (g, r))) = pendingFor f (ps_pending s)"
  using assms
  by (auto simp: populateRule_def Let_def callsFor_def pendingFor_def
      split: option.splits sum.splits)

lemma populateRule_same:
  assumes "rule_handler r = None" and "JStr f \<in> set pf"
  shows "ps_docs (populateRule call pf s (f, r)) = ps_docs s"
    and "callsFor f (ps_events (populateRule call pf s (f, r))) =
           callsFor f (ps_events s)
           @ (if idListOf f (ps_docs s) \<noteq> []
              then [RemoteCall f (rule_action r) (callParams r (idListOf f (ps_docs s)))] else [])"
    and "pendingFor f (ps_pending (populateRule call pf s (f, r))) =
           pendingFor f (ps_pending s)
           @ (if idListOf f (ps_docs s) \<noteq> []
              then (case call (rule_action r) (callParams r (idListOf f (ps_docs s))) of
                      Inr m \<Rightarrow> [(f, m)] | Inl e \<Rightarrow> [])
              else [])"
    and "ps_failure (populateRule call pf s (f, r)) = None \<Longrightarrow> idListOf f (ps_docs s) \<noteq> []
           \<Longrightarrow> \<exists>m. call (rule_action r) (callParams r (idListOf f (ps_docs s))) = Inr m"
  using assms
  by (auto simp: populateRule_def Let_def callsFor_def pendingFor_def first_failure_Some
      split: option.splits sum.splits)

lemma fold_failure:
  "ps_failure (foldl (populateRule call pf) s rs) = None \<Longrightarrow> ps_failure s = None"
  by (induction rs arbitrary: s) (auto dest: populateRule_failure)

lemma handlersKeep_Cons:
  "handlersKeep f ((g, r) # rs) \<longleftrightarrow>
     (\<forall>h ids ds ds'. rule_handler r = Some h \<longrightarrow> h ids ds = Inr ds'
          \<longrightarrow> fieldValues f ds' = fieldValues f ds) \<and> handlersKeep f rs"
  by (auto simp: handlersKeep_def)

lemma handlersKeep_append:
  "handlersKeep f (rs @ rs') \<longleftrightarrow> handlersKeep f rs \<and> handlersKeep f rs'"
  unfolding handlersKeep_def by (simp add: ball_Un)

lemma fold_others:
  assumes "f \<notin> fst ` set rs" and "handlersKeep f rs"
  shows "fieldValues f (ps_docs (foldl (populateRule call pf) s rs)) = fieldValues f (ps_docs s)
       \<and> callsFor f (ps_events (foldl (populateRule call pf) s rs)) = callsFor f (ps_events s)
       \<and> pendingFor f (ps_pending (foldl (populateRule call pf) s rs)) = pendingFor f (ps_pending s)"
  using assms
proof (induction rs arbitrary: s)
  case Nil
  then show ?case by simp
next
  case (Cons x rs)
  obtain g r where x: "x = (g, r)" by (cases x)
  from Cons.prems(1) x have gf: "g \<noteq> f" and rest: "f \<notin> fst ` set rs" by auto
  from Cons.prems(2) x have keep: "\<And>h ids ds ds'. rule_handler r = Some h \<Longrightarrow> h ids ds = Inr ds'
            \<Longrightarrow> fieldValues f ds' = fieldValues f ds"
    and keeps: "handlersKeep f rs"
    by (auto simp: handlersKeep_Cons)
  show ?case
    using Cons.IH [OF rest keeps, of "populateRule call pf s x"]
      populateRule_other [OF gf keep, where call = call and pf = pf and s = s]
    by (simp add: x)
qed

lemma phase2:
  "fieldValues f (foldl (\<lambda>ds (g, m). resultTransform g m ds) ds P) =
     foldl (\<lambda>vs gm. map (spec_resolved (snd gm)) vs) (fieldValues f ds) (pendingFor f P)"
proof (induction P arbitrary: ds)
  case Nil
  then show ?case by (simp add: pendingFor_def)
next
  case (Cons x P)
  obtain g m where x: "x = (g, m)" by (cases x)
  show ?case
    using Cons.IH [of "resultTransform g m ds"]
    by (cases "g = f")
      (simp_all add: x pendingFor_def fieldValues_resultTransform_other
        fieldValues_resultTransform_same)
qed


lemma populateDocs_relation:
  assumes rules: "populates st = Some rules" and dist: "distinct (map fst rules)"
    and mem: "(f, r) \<in> set rules" and remote: "rule_handler r = None"
    and keep: "handlersKeep f rules"
    and pf: "pf \<noteq> []" "JStr f \<in> set pf"
  shows "callsFor f (snd (populateDocs st call docs (JArr pf))) =
           (if idListOf f docs \<noteq> []
            then [RemoteCall f (rule_action r) (callParams r (idListOf f docs))] else [])"
    and "fst (populateDocs st call docs (JArr pf)) = Inr ds' \<Longrightarrow>
           (if idListOf f docs \<noteq> []
            then \<exists>m. call (rule_action r) (callParams r (idListOf f docs)) = Inr m
                   \<and> fieldValues f ds' = map (spec_resolved m) (fieldValues f docs)
            else fieldValues f ds' = fieldValues f docs)"
proof -
  from mem obtain rs1 rs2 where split: "rules = rs1 @ (f, r) # rs2"
    by (meson split_list)
  from dist split have n1: "f \<notin> fst ` set rs1" and n2: "f \<notin> fst ` set rs2"
    by auto
  from keep split have k1: "handlersKeep f rs1" and k2: "handlersKeep f rs2"
    by (auto simp: handlersKeep_append handlersKeep_Cons)
  let ?step = "populateRule call pf"
  let ?s0 = "\<lparr>ps_docs = docs, ps_pending = [], ps_events = [], ps_failure = None\<rparr>"
  define s1 where "s1 = foldl ?step ?s0 rs1"
  define s2 where "s2 = ?step s1 (f, r)"
  define s3 where "s3 = foldl ?step s2 rs2"
  have s3: "foldl ?step ?s0 rules = s3"
    by (simp add: split s1_def s2_def s3_def)
  have f1: "fieldValues f (ps_docs s1) = fieldValues f docs"
    and c1: "callsFor f (ps_events s1) = []" and p1: "pendingFor f (ps_pending s1) = []"
    using fold_others [OF n1 k1, where call = call and pf = pf and s = ?s0]
    by (simp_all add: s1_def callsFor_def pendingFor_def)
  have ids: "idListOf f (ps_docs s1) = idListOf f docs"
    using f1 by (rule idListOf_cong)
  have d2: "ps_docs s2 = ps_docs s1"
    and c2: "callsFor f (ps_events s2) =
           (if idListOf f docs \<noteq> []
            then [RemoteCall f (rule_action r) (callParams r (idListOf f docs))] else [])"
    and p2: "pendingFor f (ps_pending s2) =
           (if idListOf f docs \<noteq> []
            then (case call (rule_action r) (callParams r (idListOf f docs)) of
                    Inr m \<Rightarrow> [(f, m)] | Inl e \<Rightarrow> [])
            else [])"
    using populateRule_same(1,2,3) [OF remote pf(2), where call = call and s = s1]
    by (simp_all add: s2_def c1 p1 ids)
  have ok2: "ps_failure s2 = None \<Longrightarrow> idListOf f docs \<noteq> []
           \<Longrightarrow> \<exists>m. call (rule_action r) (callParams r (idListOf f docs)) = Inr m"
    using populateRule_same(4) [OF remote pf(2), where call = call and s = s1] by (simp add: s2_def ids)
  have f3: "fieldValues f (ps_docs s3) = fieldValues f docs"
    and c3: "callsFor f (ps_events s3) = callsFor f (ps_events s2)"
    and p3: "pendingFor f (ps_pending s3) = pendingFor f (ps_pending s2)"
    using fold_others [OF n2 k2, where call = call and pf = pf and s = s2] by (simp_all add: s3_def d2 f1)
  have res: "populateDocs st call docs (JArr pf) =
      (case ps_failure s3 of
         Some e \<Rightarrow> Inl e
       | None \<Rightarrow> Inr (foldl (\<lambda>ds (g, m). resultTransform g m ds) (ps_docs s3) (ps_pending s3)),
       ps_events s3)"
    using pf(1) by (simp add: populateDocs_def rules s3 Let_def)
  show "callsFor f (snd (populateDocs st call docs (JArr pf))) =
           (if idListOf f docs \<noteq> []
            then [RemoteCall f (rule_action r) (callParams r (idListOf f docs))] else [])"
    by (simp add: res c3 c2)
  assume "fst (populateDocs st call docs (JArr pf)) = Inr ds'"
  then have nofail: "ps_failure s3 = None"
    and ds': "ds' = foldl (\<lambda>ds (g, m). resultTransform g m ds) (ps_docs s3) (ps_pending s3)"
    by (auto simp: res split: option.splits)
  from nofail have "ps_failure s2 = None"
    unfolding s3_def by (rule fold_failure)
  note ok = ok2 [OF this]
  have fv: "fieldValues f ds' =
      foldl (\<lambda>vs gm. map (spec_resolved (snd gm)) vs) (fieldValues f docs)
        (pendingFor f (ps_pending s2))"
    by (simp add: ds' phase2 f3 p3)
  show "if idListOf f docs \<noteq> []
        then \<exists>m. call (rule_action r) (callParams r (idListOf f docs)) = Inr m
               \<and> fieldValues f ds' = map (spec_resolved m) (fieldValues f docs)
        else fieldValues f ds' = fieldValues f docs"
  proof (cases "idListOf f docs = []")
    case True
    then show ?thesis by (simp add: fv p2)
  next
    case False
    with ok obtain m where m: "call (rule_action r) (callParams r (idListOf f docs)) = Inr m"
      by blast
    with False show ?thesis by (simp add: fv p2)
  qed
qed





lemmas populate_eval = populateDocs_def populateRule_def idListOf_def compact_def uniq_def
  resultTransform_def callParams_def object_assign_def obj_get_def obj_set_def
  defaultSettings_def usersGet_def ownerByAction_def ownerByHandler_def nobody_def
  fieldValues_def spec_idList_def


text \<open>\<open>_.compact\<close> runs before \<open>_.flattenDeep\<close> (the comment in the source names them in the
  other order), so a null inside a list-valued relation stays in the id list. The amended
  claim below leaves such values out: it neither promises nor denies anything about them.\<close>

lemma idListOf_nested_null:
  "idListOf ''owner'' [[(''_id'', JStr ''1''), (''owner'', JArr [JNull, JStr ''42''])]]
     = [JNull, JStr ''42'']"
  by (simp add: populate_eval)



text \<open>
  \<^bold>\<open>Claim C7\<close>, as stated, is false for a relation resolved by a custom handler: the handler
  is called whatever the id list is, and it may rewrite the field.
\<close>

theorem populateDocs_handler_counterexample:
  "spec_idList (fieldValues ''owner''
      [[(''_id'', JStr ''1'')], [(''_id'', JStr ''2''), (''owner'', JNull)]]) = []
   \<and> populateDocs ownerByHandler usersGet
        [[(''_id'', JStr ''1'')], [(''_id'', JStr ''2''), (''owner'', JNull)]]
        (JArr [JStr ''owner'']) =
      (Inr [[(''_id'', JStr ''1''), (''owner'', JStr ''nobody'')],
            [(''_id'', JStr ''2''), (''owner'', JStr ''nobody'')]],
       [HandlerCall ''owner'' []])"
  by (simp add: populate_eval)

text \<open>
  \<^bold>\<open>Claim C7, amended.\<close> For every configured relation \<open>f\<close> named in the populate list whose
  rule has no custom handler: if the id list collected across all documents (flattened,
  nulls removed) is empty and no list-valued value of \<open>f\<close> has a falsy element, no call is
  made for \<open>f\<close>, and, the custom handlers of the other relations leaving \<open>f\<close> alone, the field
  \<open>f\<close> of every document keeps the value that was stored.
\<close>

theorem populateDocs_no_ids:
  assumes "populates st = Some rules" and "distinct (map fst rules)"
    and "(f, r) \<in> set rules" and "rule_handler r = None" and "handlersKeep f rules"
    and "JStr f \<in> set pf"
    and "spec_idList (fieldValues f docs) = []"
    and "\<forall>v \<in> set (fieldValues f docs). noNestedFalsy v"
  shows "callsFor f (snd (populateDocs st call docs (JArr pf))) = []
       \<and> (\<forall>ds'. fst (populateDocs st call docs (JArr pf)) = Inr ds'
             \<longrightarrow> fieldValues f ds' = fieldValues f docs)"
proof -
  have pf: "pf \<noteq> []" using assms(6) by auto
  from assms(7) have "\<forall>v \<in> set (flattenDeep (fieldValues f docs)). v = JNull \<or> v = JUndefined"
    by (auto simp: spec_idList_def uniq_Nil_iff filter_empty_conv)
  then have "filter js_truthy (flattenDeep (fieldValues f docs)) = []"
    by (auto simp: filter_empty_conv)
  then have "truthy_idList (fieldValues f docs) = []"
    by (simp add: truthy_idList_def uniq_Nil_iff)
  with assms(8) have ids: "idListOf f docs = []"
    by (simp add: idListOf_truthy)
  note rel = populateDocs_relation [OF assms(1-5) pf assms(6), where call = call and docs = docs]
  from rel(1) rel(2) ids show ?thesis by simp
qed

theorem populateDocs_no_ids_witness:
  "populateDocs ownerByAction usersGet
     [[(''_id'', JStr ''1'')], [(''_id'', JStr ''2''), (''owner'', JNull)],
      [(''_id'', JStr ''3''), (''owner'', JArr [])]]
     (JArr [JStr ''owner'']) =
   (Inr [[(''_id'', JStr ''1'')], [(''_id'', JStr ''2''), (''owner'', JNull)],
         [(''_id'', JStr ''3''), (''owner'', JArr [])]], [])"
proof -
  let ?docs = "[[(''_id'', JStr ''1'')], [(''_id'', JStr ''2''), (''owner'', JNull)],
      [(''_id'', JStr ''3''), (''owner'', JArr [])]]"
  have 1: "populates ownerByAction = Some [(''owner'', RuleString ''users.get'')]"
    by (simp add: ownerByAction_def)
  have 2: "distinct (map fst [(''owner'', RuleString ''users.get'')])" by simp
  have 3: "(''owner'', RuleString ''users.get'') \<in> set [(''owner'', RuleString ''users.get'')]"
    by simp
  have 4: "rule_handler (RuleString ''users.get'') = None" by simp
  have 5: "handlersKeep ''owner'' [(''owner'', RuleString ''users.get'')]"
    by (simp add: handlersKeep_def)
  have 6: "JStr ''owner'' \<in> set [JStr ''owner'']" by simp
  have 7: "spec_idList (fieldValues ''owner'' ?docs) = []"
    by (simp add: populate_eval)
  have 8: "\<forall>v \<in> set (fieldValues ''owner'' ?docs). noNestedFalsy v"
    by (simp add: fieldValues_def noNestedFalsy_def obj_get_def)
  note t = populateDocs_no_ids [OF 1 2 3 4 5 6 7 8, where call = usersGet]
  from t have c: "callsFor ''owner''
        (snd (populateDocs ownerByAction usersGet ?docs (JArr [JStr ''owner'']))) = []"
    by simp
  have e: "populateDocs ownerByAction usersGet ?docs (JArr [JStr ''owner'']) = (Inr ?docs, [])"
    by (simp add: populate_eval)
  from c e show ?thesis by simp
qed

section \<open>Properties of the listing\<close>

lemma ceil_div_int: "(n + k - 1) div k = - (- n div k)" if "0 < k" for n k :: int
proof (cases "n mod k = 0")
  case True
  have "n + k - 1 = k * (n div k) + (k - 1)"
    using True by (simp add: algebra_simps) (metis mult_div_mod_eq add.right_neutral)
  then have "(n + k - 1) div k = n div k"
    using that by (intro int_div_pos_eq [where r = "k - 1"]) simp_all
  moreover have "- n div k = - (n div k)"
    using True that by (simp add: zdiv_zminus1_eq_if)
  ultimately show ?thesis by simp
next
  case False
  have "0 \<le> n mod k" and r2: "n mod k < k"
    using that by simp_all
  with False have r: "0 < n mod k" "n mod k < k"
    by simp_all
  have "n + k - 1 = k * (n div k + 1) + (n mod k - 1)"
    by (simp add: algebra_simps)
  then have "(n + k - 1) div k = n div k + 1"
    using r by (intro int_div_pos_eq [where r = "n mod k - 1"]) simp_all
  moreover have "- n div k = - (n div k) - 1"
    using False that by (simp add: zdiv_zminus1_eq_if)
  ultimately show ?thesis by simp
qed

lemma ceil_div: "0 < k \<Longrightarrow> (n + k - 1) div k = \<lceil>real_of_int n / real_of_int k\<rceil>" for n k :: int
  by (simp add: ceil_div_int ceiling_divide_eq_div)

lemma countParams_get:
  "obj_get (countParams p) k =
     (if (k = ''limit'' \<or> k = ''offset'') \<and> js_truthy (obj_get p k) then JNull else obj_get p k)"
  by (auto simp: countParams_def Let_def obj_get_set)

lemma totalPages_int:
  "0 < k \<Longrightarrow> totalPages N (JNum (Fin n)) (JNum (Fin k)) = JNum (Fin \<lceil>real_of_int n / real_of_int k\<rceil>)"
  by (simp add: totalPages_def js_plus_def js_minus_def num_sub_def ceil_div [symmetric])


lemma transformArray_length:
  "\<not> js_truthy (obj_get params ''populate'') \<Longrightarrow>
     transformArray svc c params xs = (r, evs) \<Longrightarrow>
     evs = [] \<and> (\<exists>ys. r = Inr ys \<and> length ys = length xs)"
  by (auto simp: transformArray_def Let_def encodeIDs_def split: option.splits)

text \<open>
  \<^bold>\<open>Claim C6.\<close> For every \<open>list\<close> request whose two adapter requests succeed: \<open>_list\<close> issues
  the row fetch with the (paged) parameters and the count with a copy of them in which
  \<open>limit\<close> and \<open>offset\<close> are unset (\<open>null\<close> where they were truthy, and nothing else
  changed), both before any result is used; the rows are then transformed and the result is
  \<open>{rows, total, page, pageSize, totalPages}\<close>, where for a total \<open>n\<close> and a page size
  \<open>k > 0\<close> (integers) \<open>totalPages\<close> is \<open>ceil(n / k)\<close>. Without population the result has as
  many rows as the adapter returned. The row fetch and the count are recorded in the order
  in which \<open>Promise.all\<close> issues them; the model does not interleave them.
\<close>

theorem list_result:
  assumes "adapter_find (svc_adapter svc) s params = Inr rows"
    and "adapter_count (svc_adapter svc) s (countParams params) = Inr tot"
    and "transformDocuments svc (Some c) params rows = (Inr docs, evs)"
  shows "method_list N svc c params s =
           (Inr (JObj [(''rows'', docs), (''total'', tot),
                       (''page'', obj_get params ''page''),
                       (''pageSize'', obj_get params ''pageSize''),
                       (''totalPages'', totalPages N tot (obj_get params ''pageSize''))]),
            s, [AdapterFind params, AdapterCount (countParams params)] @ evs)
       \<and> \<not> js_truthy (obj_get (countParams params) ''limit'')
       \<and> \<not> js_truthy (obj_get (countParams params) ''offset'')
       \<and> (\<forall>k. k \<noteq> ''limit'' \<longrightarrow> k \<noteq> ''offset''
              \<longrightarrow> obj_get (countParams params) k = obj_get params k)
       \<and> (\<forall>n k. tot = JNum (Fin n) \<longrightarrow> obj_get params ''pageSize'' = JNum (Fin k) \<longrightarrow> 0 < k
              \<longrightarrow> totalPages N tot (obj_get params ''pageSize'')
                    = JNum (Fin \<lceil>real_of_int n / real_of_int k\<rceil>))
       \<and> (\<forall>xs. rows = JArr xs \<longrightarrow> \<not> js_truthy (obj_get params ''populate'')
              \<longrightarrow> (\<exists>ys. docs = JArr ys \<and> length ys = length xs))"
proof -
  have a: "method_list N svc c params s =
           (Inr (JObj [(''rows'', docs), (''total'', tot),
                       (''page'', obj_get params ''page''),
                       (''pageSize'', obj_get params ''pageSize''),
                       (''totalPages'', totalPages N tot (obj_get params ''pageSize''))]),
            s, [AdapterFind params, AdapterCount (countParams params)] @ evs)"
    using assms by (simp add: method_list_def findAndCount_def io_defs)
  have b: "\<not> js_truthy (obj_get (countParams params) ''limit'')"
    "\<not> js_truthy (obj_get (countParams params) ''offset'')"
    "\<forall>k. k \<noteq> ''limit'' \<longrightarrow> k \<noteq> ''offset''
              \<longrightarrow> obj_get (countParams params) k = obj_get params k"
    by (simp_all add: countParams_get)
  have d: "\<forall>n k. tot = JNum (Fin n) \<longrightarrow> obj_get params ''pageSize'' = JNum (Fin k) \<longrightarrow> 0 < k
              \<longrightarrow> totalPages N tot (obj_get params ''pageSize'')
                    = JNum (Fin \<lceil>real_of_int n / real_of_int k\<rceil>)"
    by (simp add: totalPages_int)
  have e: "\<forall>xs. rows = JArr xs \<longrightarrow> \<not> js_truthy (obj_get params ''populate'')
              \<longrightarrow> (\<exists>ys. docs = JArr ys \<and> length ys = length xs)"
  proof (intro allI impI)
    fix xs assume r: "rows = JArr xs" and np: "\<not> js_truthy (obj_get params ''populate'')"
    obtain res evs' where ta: "transformArray svc (Some c) params xs = (res, evs')"
      by (cases "transformArray svc (Some c) params xs")
    from transformArray_length [OF np ta] obtain ys where "res = Inr ys" "length ys = length xs"
      by blast
    with assms(3) r ta show "\<exists>ys. docs = JArr ys \<and> length ys = length xs"
      by (auto simp: transformDocuments_def)
  qed
  from a b d e show ?thesis by blast
qed



text \<open>\<open>list(page = 1, pageSize = 10)\<close> on 25 documents: 10 rows, total 25, 3 pages.\<close>

theorem list_result_witness:
  "fst (action_list decimalNumber (memoryService defaultSettings)
          (request ''posts.list'' [(''page'', JNum (Fin 1)), (''pageSize'', JNum (Fin 10))])
          posts25)
     = Inr (JObj [(''rows'', JArr (map JObj (take 10 posts25))), (''total'', JNum (Fin 25)),
                  (''page'', JNum (Fin 1)), (''pageSize'', JNum (Fin 10)),
                  (''totalPages'', JNum (Fin 3))])
   \<and> length (take 10 posts25) = 10"
proof -
  let ?P = "[(''page'', JNum (Fin 1)), (''pageSize'', JNum (Fin 10)),
             (''limit'', JNum (Fin 10)), (''offset'', JNum (Fin 0))]"
  let ?c = "request ''posts.list'' [(''page'', JNum (Fin 1)), (''pageSize'', JNum (Fin 10))]"
  let ?svc = "memoryService defaultSettings"
  have sp: "sanitizeParams decimalNumber defaultSettings ''posts.list''
              [(''page'', JNum (Fin 1)), (''pageSize'', JNum (Fin 10))] = Inr ?P"
    by (simp add: sanitizeParams_def stringToNumber_def stringToList_def bindE_def obj_get_def
        obj_set_def limitTheLimit_def paginate_def defaultSettings_def js_gt_def js_times_def
        js_minus_def num_sub_def suffix_to_prefix)
  have fnd: "adapter_find (svc_adapter ?svc) posts25 ?P = Inr (JArr (map JObj (take 10 posts25)))"
    by (simp add: memoryService_def memoryAdapter_def pageOf_def matchesQuery_def obj_get_def)
  have cnt: "adapter_count (svc_adapter ?svc) posts25 (countParams ?P) = Inr (JNum (Fin 25))"
    by (simp add: memoryService_def memoryAdapter_def matchesQuery_def obj_get_def countParams_def
        obj_set_def posts25_def)
  have tr: "transformDocuments ?svc (Some ?c) ?P (JArr (map JObj (take 10 posts25)))
              = (Inr (JArr (map JObj (take 10 posts25))), [])"
    by (simp add: transformDocuments_def transformArray_def memoryService_def memoryAdapter_def
        defaultSettings_def encodeIDs_def encodeID_def requestedFields_def authorizeFields_def
        filterFields_def obj_get_def obj_set_def posts25_def)
      (auto dest!: in_set_takeD)
  note t = list_result [OF fnd cnt tr, where N = decimalNumber]
  have ps: "obj_get ?P ''pageSize'' = JNum (Fin 10)" "obj_get ?P ''page'' = JNum (Fin 1)"
    by (simp_all add: obj_get_def)
  from t have pages: "totalPages decimalNumber (JNum (Fin 25)) (obj_get ?P ''pageSize'') = JNum (Fin 3)"
    unfolding ps by simp
  from t have m: "fst (method_list decimalNumber ?svc ?c ?P posts25) =
      Inr (JObj [(''rows'', JArr (map JObj (take 10 posts25))), (''total'', JNum (Fin 25)),
                 (''page'', obj_get ?P ''page''), (''pageSize'', obj_get ?P ''pageSize''),
                 (''totalPages'', totalPages decimalNumber (JNum (Fin 25)) (obj_get ?P ''pageSize''))])"
    by simp
  have a: "action_list decimalNumber ?svc ?c posts25 = method_list decimalNumber ?svc ?c ?P posts25"
    using sp by (simp add: action_list_def io_defs request_def memoryService_def defaultSettings_def)
  have l: "length (take 10 posts25) = 10"
    by (simp add: posts25_def)
  from a m pages ps l show ?thesis by simp
qed

section \<open>Properties of soft deletion\<close>

lemma bindIO_Inr:
  "bindIO m f s = (Inr y, s', evs) \<longleftrightarrow>
     (\<exists>x s1 e1 e2. m s = (Inr x, s1, e1) \<and> f x s1 = (Inr y, s', e2) \<and> evs = e1 @ e2)"
  by (cases "m s") (auto simp: bindIO_def split: sum.splits prod.splits)

lemma bindIO_ok:
  "m s = (Inr x, s1, e1) \<Longrightarrow>
     bindIO m f s = (fst (f x s1), fst (snd (f x s1)), e1 @ snd (snd (f x s1)))"
  by (simp add: bindIO_def split: prod.splits)

lemma bindIO_fail:
  "m s = (Inl e, s1, e1) \<Longrightarrow> bindIO m f s = (Inl e, s1, e1)"
  by (simp add: bindIO_def)

lemma populateRule_events:
  "\<forall>ev \<in> set (ps_events s). load_event ev \<Longrightarrow>
     \<forall>ev \<in> set (ps_events (populateRule call pf s x)). load_event ev"
  by (cases x) (auto simp: populateRule_def Let_def split: option.splits sum.splits)

lemma fold_events:
  "\<forall>ev \<in> set (ps_events s). load_event ev \<Longrightarrow>
     \<forall>ev \<in> set (ps_events (foldl (populateRule call pf) s rs)). load_event ev"
proof (induction rs arbitrary: s)
  case Nil
  then show ?case by simp
next
  case (Cons x rs)
  from Cons.prems have "\<forall>ev \<in> set (ps_events (populateRule call pf s x)). load_event ev"
    by (rule populateRule_events)
  then show ?case
    using Cons.IH by simp
qed

lemma populateDocs_events:
  "\<forall>ev \<in> set (snd (populateDocs st call docs pf)). load_event ev"
proof -
  have "\<forall>ev \<in> set (ps_events (foldl (populateRule call xs)
          \<lparr>ps_docs = docs, ps_pending = [], ps_events = [], ps_failure = None\<rparr> rules)). load_event ev"
    for xs rules
    by (rule fold_events) simp
  then show ?thesis
    by (auto simp: populateDocs_def Let_def split: option.splits jsval.splits)
qed

lemma transformArray_events:
  "\<forall>ev \<in> set (snd (transformArray svc c params docs)). load_event ev"
  using populateDocs_events
  by (auto simp: transformArray_def Let_def split: option.splits)

lemma transformDocuments_events:
  "\<forall>ev \<in> set (snd (transformDocuments svc c params docs)). load_event ev"
proof (cases docs)
  case (JArr xs)
  then show ?thesis
    using transformArray_events [of svc c params xs]
    by (cases "transformArray svc c params xs") (auto simp: transformDocuments_def split: sum.splits)
next
  case (JObj d)
  then show ?thesis
    using transformArray_events [of svc c params "[docs]"]
    by (cases "transformArray svc c params [docs]") (auto simp: transformDocuments_def split: sum.splits)
qed (simp_all add: transformDocuments_def)

lemma getById_run:
  "\<exists>r ev. getById svc i d s = (r, s, [ev]) \<and> load_event ev"
  by (cases i) (simp_all add: getById_def readStore_def)

lemma method_get_load:
  assumes "method_get svc c params s = (r, s1, e1)"
  shows "s1 = s \<and> (\<forall>ev \<in> set e1. load_event ev)"
proof -
  obtain r0 ev where g: "getById svc (obj_get params ''id'') True s = (r0, s, [ev])"
    and l: "load_event ev"
    using getById_run [of svc "obj_get params ''id''" True s] by blast
  show ?thesis
  proof (cases r0)
    case (Inl e)
    with g assms l show ?thesis by (auto simp: method_get_def bindIO_fail)
  next
    case (Inr doc)
    show ?thesis
    proof (cases "js_truthy doc")
      case False
      with g Inr assms l show ?thesis
        by (auto simp: method_get_def bindIO_ok reject_def)
    next
      case True
      obtain r1 evs where t: "transformDocuments svc (Some c) params doc = (r1, evs)"
        by (cases "transformDocuments svc (Some c) params doc")
      have le: "\<forall>ev \<in> set evs. load_event ev"
        using transformDocuments_events [of svc "Some c" params doc] t by simp
      show ?thesis
      proof (cases r1)
        case (Inl e)
        with g Inr True t assms l le show ?thesis
          by (auto simp: method_get_def bindIO_ok bindIO_fail calls_def)
      next
        case (Inr json)
        with g \<open>r0 = Inr doc\<close> True t assms l le show ?thesis
          by (auto simp: method_get_def bindIO_ok bindIO_def calls_def ret_def liftE_def
              split: jsval.splits sum.splits if_splits)
      qed
    qed
  qed
qed


lemma capitalize_updated: "capitalize ''updated'' = ''Updated''"
  by (simp add: capitalize_def toUpper_def toLower_def lower_chars_def upper_chars_def)

lemma capitalize_removed: "capitalize ''removed'' = ''Removed''"
  by (simp add: capitalize_def toUpper_def toLower_def lower_chars_def upper_chars_def)

lemma entityChanged_updated:
  assumes "entityChanged svc ''updated'' json s = (Inr u, s2, e)"
  shows "s2 = s \<and> e = [Broadcast (''cache.clean.'' @ svc_fullName svc)]
           @ (if svc_cacher svc then [CacherClean (svc_fullName svc @ ''.*'')] else [])
           @ (if svc_schema svc ''entityUpdated'' = None then []
              else [HookCall ''entityUpdated'' json])"
  using assms
  by (auto simp: entityChanged_def clearCache_def capitalize_updated bindIO_def emit_def ret_def
      liftE_def split: option.splits sum.splits if_splits)

lemma updateSets_fold:
  assumes "k \<noteq> ''id''" and "k \<noteq> idf"
  shows "obj_get (snd (foldl (\<lambda>(i, sets) prp.
              if prp = ''id'' \<or> prp = idf then (decodeID (obj_get params prp), sets)
              else (i, obj_set sets prp (obj_get params prp))) (i0, sets0) ks)) k
         = (if k \<in> set ks then obj_get params k else obj_get sets0 k)"
  using assms
  by (induction ks arbitrary: i0 sets0) (auto simp: obj_get_set)

lemma obj_get_absent: "k \<notin> fst ` set p \<Longrightarrow> obj_get p k = JUndefined"
  by (simp add: obj_get_def map_of_eq_None_iff [THEN iffD2])

lemma updateSets_get:
  assumes "k \<noteq> ''id''" and "k \<noteq> idField st"
  shows "obj_get (snd (updateSets st params)) k = obj_get params k"
proof -
  have "obj_get (snd (updateSets st params)) k =
      (if k \<in> set (object_keys params) then obj_get params k else obj_get [] k)"
    unfolding updateSets_def by (rule updateSets_fold [OF assms])
  moreover have "obj_get [] k = JUndefined"
    by (simp add: obj_get_def)
  moreover have "k \<notin> set (object_keys params) \<Longrightarrow> obj_get params k = JUndefined"
    by (simp add: object_keys_def obj_get_absent)
  ultimately show ?thesis by auto
qed

lemma method_update_ok:
  assumes "method_update svc c params s = (Inr json, s', evs)"
  shows "\<exists>doc mid.
           adapter_updateById (svc_adapter svc) s (fst (updateSets (svc_settings svc) params))
               [(''$set'', JObj (snd (updateSets (svc_settings svc) params)))] = (Inr doc, s')
         \<and> js_truthy doc
         \<and> transformDocuments svc (Some c) params doc = (Inr json, mid)
         \<and> evs = [AdapterUpdateById (fst (updateSets (svc_settings svc) params))
                     [(''$set'', JObj (snd (updateSets (svc_settings svc) params)))]]
                 @ mid
                 @ [Broadcast (''cache.clean.'' @ svc_fullName svc)]
                 @ (if svc_cacher svc then [CacherClean (svc_fullName svc @ ''.*'')] else [])
                 @ (if svc_schema svc ''entityUpdated'' = None then []
                    else [HookCall ''entityUpdated'' json])"
proof -
  let ?i = "fst (updateSets (svc_settings svc) params)"
  let ?u = "[(''$set'', JObj (snd (updateSets (svc_settings svc) params)))]"
  from assms obtain doc s1 e1 e2 where
    w: "writeStore (AdapterUpdateById ?i ?u) (\<lambda>s. adapter_updateById (svc_adapter svc) s ?i ?u) s
          = (Inr doc, s1, e1)"
    and rest: "(if \<not> js_truthy doc then reject (EntityNotFoundError ?i)
           else bindIO (calls (transformDocuments svc (Some c) params doc)) (\<lambda>json.
                bindIO (entityChanged svc ''updated'' json) (\<lambda>u. ret json))) s1
          = (Inr json, s', e2)"
    and evs: "evs = e1 @ e2"
    unfolding method_update_def Let_def bindIO_Inr by blast
  from w have a: "adapter_updateById (svc_adapter svc) s ?i ?u = (Inr doc, s1)"
    and e1: "e1 = [AdapterUpdateById ?i ?u]"
    by (auto simp: writeStore_def prod_eq_iff)
  from rest have t: "js_truthy doc"
    by (auto simp: reject_def split: if_splits)
  with rest obtain j s2 mid e3 where
    tr: "calls (transformDocuments svc (Some c) params doc) s1 = (Inr j, s2, mid)"
    and ec: "bindIO (entityChanged svc ''updated'' j) (\<lambda>u. ret j) s2 = (Inr json, s', e3)"
    and e2: "e2 = mid @ e3"
    by (auto simp: bindIO_Inr)
  from ec obtain u s3 e4 e5 where
    ch: "entityChanged svc ''updated'' j s2 = (Inr u, s3, e4)"
    and r: "ret j s3 = (Inr json, s', e5)" and e3: "e3 = e4 @ e5"
    by (auto simp: bindIO_Inr)
  from r have j: "j = json" and s3: "s3 = s'" and e5: "e5 = []"
    by (auto simp: ret_def)
  from tr have tr': "transformDocuments svc (Some c) params doc = (Inr j, mid)" and s2: "s2 = s1"
    by (auto simp: calls_def prod_eq_iff)
  from entityChanged_updated [OF ch] have s32: "s3 = s2"
    and e4: "e4 = [Broadcast (''cache.clean.'' @ svc_fullName svc)]
           @ (if svc_cacher svc then [CacherClean (svc_fullName svc @ ''.*'')] else [])
           @ (if svc_schema svc ''entityUpdated'' = None then []
              else [HookCall ''entityUpdated'' j])"
    by simp_all
  from a t tr' evs e1 e2 e3 e4 e5 j s2 s3 s32 show ?thesis
    by auto
qed


lemma load_not_removal: "load_event ev \<Longrightarrow> \<not> removal_event ev"
  by (cases ev) auto

lemmas sanitize_eval = sanitizeParams_def stringToNumber_def stringToList_def bindE_def
  limitTheLimit_def paginate_def js_gt_def js_times_def js_minus_def num_sub_def suffix_to_prefix

lemmas service_eval = memoryService_def memoryAdapter_def hookedService_def softSettings_def
  defaultSettings_def request_def withId_def matchesQuery_def pageOf_def

lemmas transform_eval = transformDocuments_def transformArray_def encodeIDs_def encodeID_def
  decodeID_def requestedFields_def authorizeFields_def filterFields_def fieldList_def

lemmas action_eval = action_remove_def action_get_def action_update_def action_list_def
  method_get_def method_update_def method_remove_def method_list_def findAndCount_def
  getById_def updateSets_def object_keys_def countParams_def notDeletedQuery_def
  entityChanged_def clearCache_def capitalize_updated capitalize_removed
  object_assign_def obj_get_def obj_set_def Let_def







text \<open>
  \<^bold>\<open>Claim C10.\<close> Under \<open>softDelete\<close>, a successful \<open>remove\<close> runs the update pipeline: after
  loading the record (calls that only load) the adapter is asked to update the record by
  id with a \<open>$set\<close> whose \<open>isDeleted\<close> is the current timestamp; then, after the
  transformation of the updated record (calls that only load), the cache is cleared (the
  broadcast, and the purge when there is a cacher), and then the \<open>entityUpdated\<close> hook,
  when the schema defines it, is called with the transformed entity, which is also the
  result. No \<open>removeById\<close> is issued and the \<open>entityRemoved\<close> hook is not called.
\<close>

theorem soft_remove_runs_update:
  assumes sd: "softDelete (svc_settings svc)"
    and idf: "idField (svc_settings svc) \<noteq> ''isDeleted''"
    and ok: "action_remove N svc now c s = (Inr json, s', evs)"
  shows "\<exists>pre i sets mid.
           evs = pre @ [AdapterUpdateById i [(''$set'', JObj sets)]] @ mid
                 @ [Broadcast (''cache.clean.'' @ svc_fullName svc)]
                 @ (if svc_cacher svc then [CacherClean (svc_fullName svc @ ''.*'')] else [])
                 @ (if svc_schema svc ''entityUpdated'' = None then []
                    else [HookCall ''entityUpdated'' json])
         \<and> obj_get sets ''isDeleted'' = JNum (Fin now)
         \<and> (\<forall>ev \<in> set (pre @ mid). load_event ev)
         \<and> (\<forall>ev \<in> set evs. \<not> removal_event ev)"
proof -
  from ok sd obtain params data s1 pre e2 where
    g: "method_get svc c params s = (Inr data, s1, pre)"
    and u: "(if js_prop data ''isDeleted'' \<noteq> JStr ''-1''
            then reject (EntityLogicallyNotFoundError (obj_get params ''id''))
            else method_update svc c (obj_set params ''isDeleted'' (JNum (Fin now)))) s1
          = (Inr json, s', e2)"
    and evs: "evs = pre @ e2"
    by (auto simp: action_remove_def bindIO_Inr liftE_def)
  let ?p = "obj_set params ''isDeleted'' (JNum (Fin now))"
  from u have up: "method_update svc c ?p s1 = (Inr json, s', e2)"
    by (auto simp: reject_def split: if_splits)
  let ?i = "fst (updateSets (svc_settings svc) ?p)"
  let ?sets = "snd (updateSets (svc_settings svc) ?p)"
  from method_update_ok [OF up] obtain doc mid where
    tr: "transformDocuments svc (Some c) ?p doc = (Inr json, mid)"
    and e2: "e2 = [AdapterUpdateById ?i [(''$set'', JObj ?sets)]] @ mid
                 @ [Broadcast (''cache.clean.'' @ svc_fullName svc)]
                 @ (if svc_cacher svc then [CacherClean (svc_fullName svc @ ''.*'')] else [])
                 @ (if svc_schema svc ''entityUpdated'' = None then []
                    else [HookCall ''entityUpdated'' json])"
    by blast
  have marker: "obj_get ?sets ''isDeleted'' = JNum (Fin now)"
    using idf by (simp add: updateSets_get obj_get_set)
  have lp: "\<forall>ev \<in> set pre. load_event ev"
    using method_get_load [OF g] by simp
  have lm: "\<forall>ev \<in> set mid. load_event ev"
    using transformDocuments_events [of svc "Some c" ?p doc] tr by simp
  have nr: "\<forall>ev \<in> set evs. \<not> removal_event ev"
    using lp lm by (auto simp: evs e2 load_not_removal)
  from evs e2 marker lp lm nr show ?thesis
    by (intro exI [of _ pre] exI [of _ ?i] exI [of _ ?sets] exI [of _ mid]) auto
qed

text \<open>The soft removal of document \<open>1\<close> by a service that defines both hooks.\<close>

theorem soft_remove_runs_update_witness:
  "action_remove decimalNumber (hookedService softSettings) 1234
      (request ''posts.remove'' [(''id'', JStr ''1'')]) posts3 =
   (Inr (JObj [(''_id'', JStr ''1''), (''name'', JStr ''a''), (''isDeleted'', JNum (Fin 1234))]),
    [[(''_id'', JStr ''1''), (''name'', JStr ''a''), (''isDeleted'', JNum (Fin 1234))],
     [(''_id'', JStr ''2''), (''name'', JStr ''b''), (''isDeleted'', JNum (Fin 1700))],
     [(''_id'', JStr ''3''), (''name'', JStr ''c''), (''isDeleted'', JStr ''-1'')]],
    [AdapterFindById (JStr ''1''),
     AdapterUpdateById (JStr ''1'') [(''$set'', JObj [(''isDeleted'', JNum (Fin 1234))])],
     Broadcast ''cache.clean.posts'', CacherClean ''posts.*'',
     HookCall ''entityUpdated''
       (JObj [(''_id'', JStr ''1''), (''name'', JStr ''a''), (''isDeleted'', JNum (Fin 1234))])])"
proof -
  have sd: "softDelete (svc_settings (hookedService softSettings))"
    by (simp add: service_eval)
  have idf: "idField (svc_settings (hookedService softSettings)) \<noteq> ''isDeleted''"
    by (simp add: service_eval)
  have e: "action_remove decimalNumber (hookedService softSettings) 1234
      (request ''posts.remove'' [(''id'', JStr ''1'')]) posts3 =
   (Inr (JObj [(''_id'', JStr ''1''), (''name'', JStr ''a''), (''isDeleted'', JNum (Fin 1234))]),
    [[(''_id'', JStr ''1''), (''name'', JStr ''a''), (''isDeleted'', JNum (Fin 1234))],
     [(''_id'', JStr ''2''), (''name'', JStr ''b''), (''isDeleted'', JNum (Fin 1700))],
     [(''_id'', JStr ''3''), (''name'', JStr ''c''), (''isDeleted'', JStr ''-1'')]],
    [AdapterFindById (JStr ''1''),
     AdapterUpdateById (JStr ''1'') [(''$set'', JObj [(''isDeleted'', JNum (Fin 1234))])],
     Broadcast ''cache.clean.posts'', CacherClean ''posts.*'',
     HookCall ''entityUpdated''
       (JObj [(''_id'', JStr ''1''), (''name'', JStr ''a''), (''isDeleted'', JNum (Fin 1234))])])"
    by (simp add: action_eval sanitize_eval service_eval transform_eval io_defs posts3_def)
  note t = soft_remove_runs_update [OF sd idf e]
  from t e show ?thesis by simp
qed


text \<open>The handlers read the marker of the transformed record. A field list that leaves
  \<open>isDeleted\<close> out therefore makes a record that is not deleted logically not found. The
  amended claim speaks of the marker of the record as loaded by \<open>_get\<close> and so leaves this
  behaviour out.\<close>

lemma get_hidden_marker:
  "fst (action_get decimalNumber (memoryService softSettings)
        (request ''posts.get'' [(''id'', JStr ''1''), (''fields'', JArr [JStr ''name''])]) posts3) =
      Inl (EntityLogicallyNotFoundError (JStr ''1''))"
  by (simp add: action_eval sanitize_eval service_eval transform_eval io_defs posts3_def
      lodash_get_def lodash_set_def castPath_def unsafe_keys_def)



section \<open>The identity field through the transformer\<close>







lemma assignValue_obj: "assignValue (JObj ps) k x = JObj (obj_set ps k x)"
  by simp















end
